theory Spec2Isabelle
  imports Main "HOL-Library.Word"
begin

unbundle bit_operations_syntax

section \<open>Bytes, hexadecimal text and the random source\<close>

text \<open>
  A \<open>Buffer\<close>, a \<open>Uint8Array\<close> and an \<open>ArrayBuffer\<close> are sequences of bytes.
  The texts the code writes out itself (labels, identifiers, hexadecimal) are kept as
  \<open>string\<close>. The texts a run is given or computes (the deed, the passwords, what
  is decrypted) are of a type \<open>'s\<close> of their own, the one the library's UTF-8 codec
  works on; for JavaScript it is the sequence of UTF-16 code units, \<open>js_string\<close> below.
\<close>

type_synonym byte = "8 word"
type_synonym bytes = "byte list"

text \<open>
  \<open>buf.toString('hex')\<close>: two lower-case hexadecimal digits for each byte, the high
  nibble first.
\<close>

definition hex_char :: "nat \<Rightarrow> char" where
  "hex_char n = char_of (if n < 10 then 48 + n else 87 + n)"

definition toString_hex :: "bytes \<Rightarrow> string" where
  "toString_hex buf = concat (map (\<lambda>b. [hex_char (unat b div 16), hex_char (unat b mod 16)]) buf)"

text \<open>
  \<open>Buffer.from(text, 'hex')\<close>: reads the text two characters at a time, accepts
  digits of either case, and stops at the first pair that is not two hexadecimal
  digits (a trailing single character is dropped).
\<close>

definition hex_val :: "char \<Rightarrow> nat option" where
  "hex_val c =
     (let n = (of_char c :: nat) in
      if 48 \<le> n \<and> n \<le> 57 then Some (n - 48)
      else if 97 \<le> n \<and> n \<le> 102 then Some (n - 87)
      else if 65 \<le> n \<and> n \<le> 70 then Some (n - 55)
      else None)"

fun from_hex :: "string \<Rightarrow> bytes" where
  "from_hex (a # b # rest) =
     (case hex_val a of
        None \<Rightarrow> []
      | Some h \<Rightarrow>
          (case hex_val b of
             None \<Rightarrow> []
           | Some l \<Rightarrow> of_nat (h * 16 + l) # from_hex rest))"
| "from_hex _ = []"

text \<open>
  \<open>crypto.randomBytes(n)\<close>, \<open>crypto.getRandomValues(new Uint8Array(n))\<close> and
  \<open>crypto.subtle.generateKey\<close> draw from the system's random source. The source is an
  unbounded tape of bytes and a read position: a draw of \<open>n\<close> bytes returns the next
  \<open>n\<close> bytes of the tape and moves the position past them.
\<close>

record random_source =
  tape :: "nat \<Rightarrow> byte"
  pos :: nat

definition randomBytes :: "nat \<Rightarrow> random_source \<Rightarrow> bytes \<times> random_source" where
  "randomBytes n g = (map (tape g) [pos g ..< pos g + n], g\<lparr>pos := pos g + n\<rparr>)"

section \<open>The cryptographic library\<close>

text \<open>
  The repository calls Node's \<open>crypto\<close> module and the browser's \<open>crypto.subtle\<close>;
  neither is part of it. Their primitives are parameters of the model:
  \<^item> \<open>pbkdf2_byte password salt iterations i\<close> is byte \<open>i\<close> of the PBKDF2-HMAC-SHA256
    output (the output of length \<open>n\<close> is the first \<open>n\<close> bytes of that sequence);
  \<^item> \<open>keystream_byte key iv i\<close> is byte \<open>i\<close> of the AES-GCM key stream for the key and
    the IV; GCM encrypts and decrypts in counter mode, by XOR with the key stream;
  \<^item> \<open>tag_byte key iv ciphertext i\<close> is byte \<open>i\<close> of the 16-byte GCM authentication tag
    of the ciphertext (no additional data is ever passed);
  \<^item> \<open>utf8_encode\<close> and \<open>utf8_decode\<close> are the platform's UTF-8 codec: that of
    \<open>Buffer\<close> for \<open>js/a.js\<close>, \<open>TextEncoder\<close> and \<open>TextDecoder\<close> for the browser.
\<close>

record 's crypto_lib =
  pbkdf2_byte :: "bytes \<Rightarrow> bytes \<Rightarrow> nat \<Rightarrow> nat \<Rightarrow> byte"
  keystream_byte :: "bytes \<Rightarrow> bytes \<Rightarrow> nat \<Rightarrow> byte"
  tag_byte :: "bytes \<Rightarrow> bytes \<Rightarrow> bytes \<Rightarrow> nat \<Rightarrow> byte"
  utf8_encode :: "'s \<Rightarrow> bytes"
  utf8_decode :: "bytes \<Rightarrow> 's"

text \<open>
  What the library throws. \<open>AuthenticationFailure\<close> is the failed tag check: Node's
  \<open>final()\<close> throws "Unsupported state or unable to authenticate data", and
  \<open>crypto.subtle.decrypt\<close> rejects with an \<open>OperationError\<close>.
\<close>

datatype error =
    InvalidKeyLength
  | InvalidIV
  | InvalidAuthTag
  | AuthenticationFailure
  | InvalidAccessError
  | DataError

definition pbkdf2 :: "'s crypto_lib \<Rightarrow> bytes \<Rightarrow> bytes \<Rightarrow> nat \<Rightarrow> nat \<Rightarrow> bytes" where
  "pbkdf2 L password salt iterations keylen =
     map (pbkdf2_byte L password salt iterations) [0 ..< keylen]"

text \<open>Counter mode from byte offset \<open>off\<close> of the key stream.\<close>

definition gcm_crypt :: "'s crypto_lib \<Rightarrow> bytes \<Rightarrow> bytes \<Rightarrow> nat \<Rightarrow> bytes \<Rightarrow> bytes" where
  "gcm_crypt L key iv off data =
     map (\<lambda>(i, b). b XOR keystream_byte L key iv (off + i)) (enumerate 0 data)"

definition gcm_tag :: "'s crypto_lib \<Rightarrow> bytes \<Rightarrow> bytes \<Rightarrow> bytes \<Rightarrow> bytes" where
  "gcm_tag L key iv ciphertext = map (tag_byte L key iv ciphertext) [0 ..< 16]"

subsection \<open>Node: \<open>pbkdf2Sync\<close>, \<open>createCipheriv\<close>, \<open>createDecipheriv\<close>\<close>

text \<open>\<open>crypto.pbkdf2Sync(password, salt, iterations, keylen, 'sha256')\<close>; a string
  password is taken as its UTF-8 bytes.\<close>

definition pbkdf2Sync :: "'s crypto_lib \<Rightarrow> 's \<Rightarrow> bytes \<Rightarrow> nat \<Rightarrow> nat \<Rightarrow> bytes" where
  "pbkdf2Sync L password salt iterations keylen =
     pbkdf2 L (utf8_encode L password) salt iterations keylen"

text \<open>
  A cipher or decipher object of \<open>'aes-256-gcm'\<close>: its key and IV, the ciphertext it
  has produced or consumed so far, and for a decipher the tag set by \<open>setAuthTag\<close>.
\<close>

record cipher_state =
  c_key :: bytes
  c_iv :: bytes
  c_text :: bytes
  c_tag :: "bytes option"

text \<open>\<open>createCipheriv('aes-256-gcm', key, iv)\<close> and \<open>createDecipheriv\<close> of the same
  arguments: a GCM IV has 1 to 128 bytes, and the key must be 32 bytes.\<close>

definition createCipheriv :: "bytes \<Rightarrow> bytes \<Rightarrow> error + cipher_state" where
  "createCipheriv key iv =
     (if iv = [] \<or> 128 < length iv then Inl InvalidIV
      else if length key \<noteq> 32 then Inl InvalidKeyLength
      else Inr \<lparr>c_key = key, c_iv = iv, c_text = [], c_tag = None\<rparr>)"

definition createDecipheriv :: "bytes \<Rightarrow> bytes \<Rightarrow> error + cipher_state" where
  "createDecipheriv key iv = createCipheriv key iv"

text \<open>\<open>cipher.update(data)\<close>: the ciphertext of the next chunk.\<close>

definition cipher_update :: "'s crypto_lib \<Rightarrow> cipher_state \<Rightarrow> bytes \<Rightarrow> bytes \<times> cipher_state" where
  "cipher_update L c data =
     (let out = gcm_crypt L (c_key c) (c_iv c) (length (c_text c)) data
      in (out, c\<lparr>c_text := c_text c @ out\<rparr>))"

text \<open>\<open>cipher.final()\<close>: GCM has no padding, nothing is left to emit.\<close>

definition cipher_final :: "cipher_state \<Rightarrow> bytes" where
  "cipher_final c = []"

definition getAuthTag :: "'s crypto_lib \<Rightarrow> cipher_state \<Rightarrow> bytes" where
  "getAuthTag L c = gcm_tag L (c_key c) (c_iv c) (c_text c)"

text \<open>\<open>decipher.setAuthTag(tag)\<close>: a GCM tag has 4, 8 or 12 to 16 bytes.\<close>

definition setAuthTag :: "cipher_state \<Rightarrow> bytes \<Rightarrow> error + cipher_state" where
  "setAuthTag c t =
     (if length t \<in> {4, 8, 12, 13, 14, 15, 16} then Inr (c\<lparr>c_tag := Some t\<rparr>)
      else Inl InvalidAuthTag)"

text \<open>\<open>decipher.update(data)\<close>: the plaintext of the next chunk, released before the
  tag has been checked.\<close>

definition decipher_update :: "'s crypto_lib \<Rightarrow> cipher_state \<Rightarrow> bytes \<Rightarrow> bytes \<times> cipher_state" where
  "decipher_update L c data =
     (let out = gcm_crypt L (c_key c) (c_iv c) (length (c_text c)) data
      in (out, c\<lparr>c_text := c_text c @ data\<rparr>))"

text \<open>\<open>decipher.final()\<close>: compares the tag that was set, at its own length, with the
  tag of the ciphertext consumed; throws when they differ or no tag was set.\<close>

definition decipher_final :: "'s crypto_lib \<Rightarrow> cipher_state \<Rightarrow> error + bytes" where
  "decipher_final L c =
     (case c_tag c of
        None \<Rightarrow> Inl AuthenticationFailure
      | Some t \<Rightarrow>
          if take (length t) (gcm_tag L (c_key c) (c_iv c) (c_text c)) = t then Inr []
          else Inl AuthenticationFailure)"

section \<open>The key-sharing demonstration (\<open>js/a.js\<close>)\<close>

text \<open>
  \<open>deriveKey(password, salt = null)\<close>: a missing salt is replaced by 16 fresh random
  bytes; the key is 32 bytes of PBKDF2 with 100000 iterations. Returns \<open>{ key, salt }\<close>.
\<close>

definition deriveKey ::
    "'s crypto_lib \<Rightarrow> 's \<Rightarrow> bytes option \<Rightarrow> random_source \<Rightarrow> (bytes \<times> bytes) \<times> random_source" where
  "deriveKey L password salt g =
     (let (salt', g') = (case salt of None \<Rightarrow> randomBytes 16 g | Some s \<Rightarrow> (s, g));
          key = pbkdf2Sync L password salt' 100000 32
      in ((key, salt'), g'))"

text \<open>The object \<open>{ encryptedData, iv, tag }\<close>.\<close>

record encryptedObj =
  encryptedData :: bytes
  iv :: bytes
  tag :: bytes

definition encrypt ::
    "'s crypto_lib \<Rightarrow> 's \<Rightarrow> bytes \<Rightarrow> random_source \<Rightarrow> error + (encryptedObj \<times> random_source)" where
  "encrypt L data key g =
     (let (iv0, g') = randomBytes 16 g in
      case createCipheriv key iv0 of
        Inl e \<Rightarrow> Inl e
      | Inr cipher \<Rightarrow>
          (let (out, cipher') = cipher_update L cipher (utf8_encode L data);
               encrypted = out @ cipher_final cipher';
               tag0 = getAuthTag L cipher'
           in Inr (\<lparr>encryptedData = encrypted, iv = iv0, tag = tag0\<rparr>, g')))"

definition decrypt :: "'s crypto_lib \<Rightarrow> encryptedObj \<Rightarrow> bytes \<Rightarrow> error + 's" where
  "decrypt L encryptedObj key =
     (case createDecipheriv key (iv encryptedObj) of
        Inl e \<Rightarrow> Inl e
      | Inr decipher \<Rightarrow>
          (case setAuthTag decipher (tag encryptedObj) of
             Inl e \<Rightarrow> Inl e
           | Inr decipher' \<Rightarrow>
               (let (out, decipher'') = decipher_update L decipher' (encryptedData encryptedObj) in
                case decipher_final L decipher'' of
                  Inl e \<Rightarrow> Inl e
                | Inr fin \<Rightarrow> Inr (utf8_decode L (out @ fin)))))"

subsection \<open>The simulated database and the script's run\<close>

text \<open>
  A deed record as the script stores it; every value is text (hexadecimal for the
  binary ones). The record's key \<open>iv\<close> is the field \<open>deed_iv\<close> here, the name \<open>iv\<close>
  being taken by the object above.
\<close>

record sharedEntry =
  friend_id :: string
  shared_key :: string

record deedRecord =
  deed_id :: string
  owner_id :: string
  encrypted_data :: string
  deed_iv :: string
  auth_tag :: string
  salt :: string
  shared_with :: "sharedEntry list"

text \<open>An argument of \<open>console.log\<close>: a text the script writes out itself (\<open>Str\<close>), a
  text the run was given or computed (\<open>Text\<close>), or the JSON text of the database
  (\<open>JSON.stringify(db, null, 2)\<close>), kept as the value it prints.\<close>

datatype 's log_arg = Str string | Text 's | Json "deedRecord list"

text \<open>
  The calls the script makes to its own three functions and to the database, in the
  order it makes them. \<open>Db_read\<close> is logged once for a cycle's reading of the stored
  record, which the code reads field by field. \<open>Authorize d\<close> stands for a consultation of an access-control
  gate with decision \<open>d\<close> (\<open>True\<close> for Allow); it is there to state orderings against
  such a gate, and no function of the script makes it.
\<close>

datatype call =
    Call_deriveKey
  | Call_encrypt
  | Call_decrypt
  | Db_push
  | Db_read
  | Authorize bool

text \<open>What a run of the script acts on: the random source, \<open>db.deeds\<close>, the console
  and the calls made so far.\<close>

record 's world =
  rng :: random_source
  deeds :: "deedRecord list"
  console :: "'s log_arg list list"
  calls :: "call list"

definition console_log :: "'s log_arg list \<Rightarrow> 's world \<Rightarrow> 's world" where
  "console_log args w = w\<lparr>console := console w @ [args]\<rparr>"

definition called :: "call \<Rightarrow> 's world \<Rightarrow> 's world" where
  "called c w = w\<lparr>calls := calls w @ [c]\<rparr>"

definition userId :: string where
  "userId = ''user123''"

definition friendId :: string where
  "friendId = ''friend456''"

text \<open>
  The three cycles of the script. The deed text and the two passwords, constants of
  the script, are arguments. A cycle returns what it computed, or the error it threw,
  and the world as it left it.
\<close>

text \<open>Cycle 1: the user logs in, encrypts the deed, stores and shares it.\<close>

definition cycle1 ::
    "'s crypto_lib \<Rightarrow> 's \<Rightarrow> 's \<Rightarrow> 's world \<Rightarrow> (error + bytes) \<times> 's world" where
  "cycle1 L privateDeed userPassword w0 =
     (let w1 = console_log [Str ''\<newline>=== Step 1: User logs in and encrypts deed ===''] w0;
          w2 = console_log [Str ''User password:'', Text userPassword] w1;
          ((userKey, salt0), g1) = deriveKey L userPassword None (rng w2);
          w3 = called Call_deriveKey (w2\<lparr>rng := g1\<rparr>);
          w4 = console_log [Str ''Derived symmetric key (user key):'', Str (toString_hex userKey)] w3;
          w5 = console_log [Str ''Salt:'', Str (toString_hex salt0)] w4;
          w6 = called Call_encrypt (console_log [Str ''\<newline>Encrypting deed...''] w5)
      in case encrypt L privateDeed userKey (rng w6) of
           Inl e \<Rightarrow> (Inl e, w6)
         | Inr (encryptedDeed, g2) \<Rightarrow>
             (let w7 = console_log [Str ''Encrypted data:'', Str (toString_hex (encryptedData encryptedDeed))]
                         (w6\<lparr>rng := g2\<rparr>);
                  w8 = console_log [Str ''IV:'', Str (toString_hex (iv encryptedDeed))] w7;
                  w9 = console_log [Str ''Auth Tag:'', Str (toString_hex (tag encryptedDeed))] w8;
                  deedRecord =
                    \<lparr>deed_id = ''deed001'',
                     owner_id = userId,
                     encrypted_data = toString_hex (encryptedData encryptedDeed),
                     deed_iv = toString_hex (iv encryptedDeed),
                     auth_tag = toString_hex (tag encryptedDeed),
                     salt = toString_hex salt0,
                     shared_with =
                       [\<lparr>friend_id = friendId, shared_key = toString_hex userKey\<rparr>]\<rparr>;
                  w10 = called Db_push (w9\<lparr>deeds := deeds w9 @ [deedRecord]\<rparr>);
                  w11 = console_log [Str ''\<newline>DB state after user encryption and sharing:''] w10;
                  w12 = console_log [Json (deeds w11)] w11;
                  w13 = console_log [Str ''\<newline>User logs out.\<newline>''] w12
              in (Inr userKey, w13)))"

text \<open>\<open>db.deeds[0]\<close> and \<open>shared_with[0]\<close>: reading a field of a missing element
  throws a \<open>TypeError\<close>.\<close>

datatype script_error = Crypto error | TypeError

definition first_deed :: "'s world \<Rightarrow> script_error + deedRecord" where
  "first_deed w = (case deeds w of [] \<Rightarrow> Inl TypeError | d # _ \<Rightarrow> Inr d)"

definition stored_obj :: "deedRecord \<Rightarrow> encryptedObj" where
  "stored_obj d =
     \<lparr>encryptedData = from_hex (encrypted_data d),
      iv = from_hex (deed_iv d),
      tag = from_hex (auth_tag d)\<rparr>"

text \<open>Cycle 2: the friend logs in, reads the shared key from the database and
  decrypts.\<close>

definition cycle2 ::
    "'s crypto_lib \<Rightarrow> 's \<Rightarrow> 's world \<Rightarrow> (script_error + 's) \<times> 's world" where
  "cycle2 L friendPassword w0 =
     (let w1 = console_log [Str ''=== Step 2: Friend logs in and decrypts deed ===''] w0;
          w2 = called Db_read (console_log [Str ''Friend password:'', Text friendPassword] w1)
      in case first_deed w2 of
           Inl e \<Rightarrow> (Inl e, w2)
         | Inr d \<Rightarrow>
             (case shared_with d of
                [] \<Rightarrow> (Inl TypeError, w2)
              | s # _ \<Rightarrow>
                  (let sharedKeyHex = shared_key s;
                       sharedKey = from_hex sharedKeyHex;
                       w3 = console_log
                              [Str ''Friend retrieved shared key from DB:'', Str (toString_hex sharedKey)] w2;
                       w4 = called Call_decrypt w3
                   in case decrypt L (stored_obj d) sharedKey of
                        Inl e \<Rightarrow> (Inl (Crypto e), w4)
                      | Inr friendDecrypted \<Rightarrow>
                          (let w5 = console_log [Str ''Friend sees deed:'', Text friendDecrypted] w4;
                               w6 = console_log [Str ''\<newline>Friend logs out.\<newline>''] w5
                           in (Inr friendDecrypted, w6)))))"

text \<open>Cycle 3: the user logs in again, derives the key from the stored salt and
  decrypts. Returns \<open>userKeyAgain\<close> and \<open>userDecrypted\<close>.\<close>

definition cycle3 ::
    "'s crypto_lib \<Rightarrow> 's \<Rightarrow> 's world \<Rightarrow> (script_error + bytes \<times> 's) \<times> 's world" where
  "cycle3 L userPassword w0 =
     (let w1 = called Db_read
                 (console_log [Str ''=== Step 3: User logs in again and decrypts deed ===''] w0)
      in case first_deed w1 of
           Inl e \<Rightarrow> (Inl e, w1)
         | Inr d \<Rightarrow>
             (let ((userKeyAgain, _), g1) = deriveKey L userPassword (Some (from_hex (salt d))) (rng w1);
                  w2 = called Call_deriveKey (w1\<lparr>rng := g1\<rparr>);
                  w3 = console_log [Str ''User derived key again:'', Str (toString_hex userKeyAgain)] w2;
                  w4 = called Call_decrypt w3
              in case decrypt L (stored_obj d) userKeyAgain of
                   Inl e \<Rightarrow> (Inl (Crypto e), w4)
                 | Inr userDecrypted \<Rightarrow>
                     (let w5 = console_log [Str ''User sees deed:'', Text userDecrypted] w4;
                          w6 = console_log [Str ''\<newline>Final DB state (what's stored):''] w5;
                          w7 = console_log [Json (deeds w6)] w6
                      in (Inr (userKeyAgain, userDecrypted), w7))))"

text \<open>What a whole run of the script yields.\<close>

record 's run_result =
  userKey :: bytes
  friendDecrypted :: 's
  userKeyAgain :: bytes
  userDecrypted :: 's

text \<open>The script from its first line to its last, started on an empty database.\<close>

definition script ::
    "'s crypto_lib \<Rightarrow> 's \<Rightarrow> 's \<Rightarrow> 's \<Rightarrow> random_source \<Rightarrow>
       (script_error + 's run_result) \<times> 's world" where
  "script L privateDeed userPassword friendPassword g =
     (case cycle1 L privateDeed userPassword \<lparr>rng = g, deeds = [], console = [], calls = []\<rparr> of
        (Inl e, w1) \<Rightarrow> (Inl (Crypto e), w1)
      | (Inr k, w1) \<Rightarrow>
          (case cycle2 L friendPassword w1 of
             (Inl e, w2) \<Rightarrow> (Inl e, w2)
           | (Inr fd, w2) \<Rightarrow>
               (case cycle3 L userPassword w2 of
                  (Inl e, w3) \<Rightarrow> (Inl e, w3)
                | (Inr (k', ud), w3) \<Rightarrow>
                    (Inr \<lparr>userKey = k, friendDecrypted = fd, userKeyAgain = k', userDecrypted = ud\<rparr>,
                     w3))))"

section \<open>The envelope-encryption demonstration (\<open>BASIC_ENCRYPTION_CODE.md\<close>)\<close>

subsection \<open>The browser's \<open>crypto.subtle\<close>\<close>

text \<open>A \<open>CryptoKey\<close>: its algorithm, its raw bytes, whether it may be exported, and
  what it may be used for.\<close>

datatype key_algorithm = PBKDF2 | AES_GCM

datatype key_usage = Use_encrypt | Use_decrypt | Use_deriveKey

record CryptoKey =
  algorithm :: key_algorithm
  raw :: bytes
  extractable :: bool
  usages :: "key_usage list"

text \<open>\<open>importKey("raw", data, "PBKDF2", false, usages)\<close>: any bytes are key material.\<close>

definition importKey_PBKDF2 :: "bytes \<Rightarrow> key_usage list \<Rightarrow> CryptoKey" where
  "importKey_PBKDF2 data us = \<lparr>algorithm = PBKDF2, raw = data, extractable = False, usages = us\<rparr>"

text \<open>\<open>importKey("raw", data, "AES-GCM", extractable, usages)\<close>: an AES key has 16, 24
  or 32 bytes; anything else is a \<open>DataError\<close>.\<close>

definition importKey_AES_GCM :: "bytes \<Rightarrow> bool \<Rightarrow> key_usage list \<Rightarrow> error + CryptoKey" where
  "importKey_AES_GCM data ex us =
     (if length data \<in> {16, 24, 32}
      then Inr \<lparr>algorithm = AES_GCM, raw = data, extractable = ex, usages = us\<rparr>
      else Inl DataError)"

text \<open>\<open>deriveKey({name: "PBKDF2", salt, iterations, hash: "SHA-256"}, material,
  {name: "AES-GCM", length: 256}, extractable, usages)\<close>: the material must be a PBKDF2
  key that may derive keys.\<close>

definition subtle_deriveKey ::
    "'s crypto_lib \<Rightarrow> bytes \<Rightarrow> nat \<Rightarrow> CryptoKey \<Rightarrow> bool \<Rightarrow> key_usage list \<Rightarrow> error + CryptoKey" where
  "subtle_deriveKey L salt0 iterations material ex us =
     (if algorithm material = PBKDF2 \<and> Use_deriveKey \<in> set (usages material)
      then Inr \<lparr>algorithm = AES_GCM, raw = pbkdf2 L (raw material) salt0 iterations 32,
                extractable = ex, usages = us\<rparr>
      else Inl InvalidAccessError)"

text \<open>\<open>generateKey({name: "AES-GCM", length: 256}, extractable, usages)\<close>: 32 random
  bytes.\<close>

definition generateKey ::
    "bool \<Rightarrow> key_usage list \<Rightarrow> random_source \<Rightarrow> CryptoKey \<times> random_source" where
  "generateKey ex us g =
     (let (k, g') = randomBytes 32 g
      in (\<lparr>algorithm = AES_GCM, raw = k, extractable = ex, usages = us\<rparr>, g'))"

text \<open>\<open>exportKey("raw", key)\<close>: only an extractable key is handed out.\<close>

definition exportKey :: "CryptoKey \<Rightarrow> error + bytes" where
  "exportKey k = (if extractable k then Inr (raw k) else Inl InvalidAccessError)"

text \<open>\<open>encrypt({name: "AES-GCM", iv}, key, data)\<close>: the ciphertext followed by the
  16-byte tag.\<close>

definition subtle_encrypt :: "'s crypto_lib \<Rightarrow> bytes \<Rightarrow> CryptoKey \<Rightarrow> bytes \<Rightarrow> error + bytes" where
  "subtle_encrypt L iv0 k data =
     (if algorithm k = AES_GCM \<and> Use_encrypt \<in> set (usages k)
      then (let ct = gcm_crypt L (raw k) iv0 0 data in Inr (ct @ gcm_tag L (raw k) iv0 ct))
      else Inl InvalidAccessError)"

text \<open>\<open>decrypt({name: "AES-GCM", iv}, key, data)\<close>: the last 16 bytes are the tag; the
  plaintext is returned only when the tag is the ciphertext's. Data too short to hold a
  tag is rejected with the same \<open>OperationError\<close> as a tag that does not match.\<close>

definition subtle_decrypt :: "'s crypto_lib \<Rightarrow> bytes \<Rightarrow> CryptoKey \<Rightarrow> bytes \<Rightarrow> error + bytes" where
  "subtle_decrypt L iv0 k data =
     (if algorithm k = AES_GCM \<and> Use_decrypt \<in> set (usages k)
      then (if length data < 16 then Inl AuthenticationFailure
            else (let ct = take (length data - 16) data;
                      t = drop (length data - 16) data
                  in if gcm_tag L (raw k) iv0 ct = t then Inr (gcm_crypt L (raw k) iv0 0 ct)
                     else Inl AuthenticationFailure))
      else Inl InvalidAccessError)"

subsection \<open>The demonstration's functions and flow\<close>

definition passwordToKey :: "'s crypto_lib \<Rightarrow> 's \<Rightarrow> bytes \<Rightarrow> error + CryptoKey" where
  "passwordToKey L password salt0 =
     (let material = importKey_PBKDF2 (utf8_encode L password) [Use_deriveKey]
      in subtle_deriveKey L salt0 100000 material False [Use_encrypt, Use_decrypt])"

text \<open>The object \<open>{ iv, cipher }\<close>, as the fields \<open>aes_iv\<close> and \<open>aes_cipher\<close>.\<close>

record aes_encrypted =
  aes_iv :: bytes
  aes_cipher :: bytes

definition encryptAES ::
    "'s crypto_lib \<Rightarrow> CryptoKey \<Rightarrow> bytes \<Rightarrow> random_source \<Rightarrow> error + (aes_encrypted \<times> random_source)" where
  "encryptAES L key data g =
     (let (iv0, g') = randomBytes 12 g in
      case subtle_encrypt L iv0 key data of
        Inl e \<Rightarrow> Inl e
      | Inr cipher \<Rightarrow> Inr (\<lparr>aes_iv = iv0, aes_cipher = cipher\<rparr>, g'))"

definition decryptAES :: "'s crypto_lib \<Rightarrow> CryptoKey \<Rightarrow> aes_encrypted \<Rightarrow> error + bytes" where
  "decryptAES L key encrypted = subtle_decrypt L (aes_iv encrypted) key (aes_cipher encrypted)"

text \<open>Sequencing of steps that may throw: the first error ends the flow.\<close>

definition and_then :: "'e + 'a \<Rightarrow> ('a \<Rightarrow> 'e + 'b) \<Rightarrow> 'e + 'b" where
  "and_then m f = (case m of Inl e \<Rightarrow> Inl e | Inr x \<Rightarrow> f x)"

text \<open>
  Steps 1 to 3: generate the random DEK, encrypt the deed with it, and protect the
  DEK for the owner under the key derived from the owner's password and a fresh salt.
\<close>

record item =
  DEK :: CryptoKey
  encryptedDeed :: aes_encrypted
  ownerSalt :: bytes
  rawDEK :: bytes
  encDEKOwner :: aes_encrypted

definition create_item ::
    "'s crypto_lib \<Rightarrow> 's \<Rightarrow> 's \<Rightarrow> random_source \<Rightarrow> error + (item \<times> random_source)" where
  "create_item L ownerPassword deed g0 =
     (let (dek, g1) = generateKey True [Use_encrypt, Use_decrypt] g0 in
      and_then (encryptAES L dek (utf8_encode L deed) g1) (\<lambda>(encDeed, g2).
        let (oSalt, g3) = randomBytes 16 g2 in
        and_then (passwordToKey L ownerPassword oSalt) (\<lambda>ownerKey.
        and_then (exportKey dek) (\<lambda>rawDek.
        and_then (encryptAES L ownerKey rawDek g3) (\<lambda>(encOwner, g4).
          Inr (\<lparr>DEK = dek, encryptedDeed = encDeed, ownerSalt = oSalt, rawDEK = rawDek,
                encDEKOwner = encOwner\<rparr>, g4))))))"

text \<open>Step 4: protect the same DEK for the friend, under the key derived from the
  friend's password and a fresh salt.\<close>

record share =
  friendSalt :: bytes
  encDEKFriend :: aes_encrypted

definition share_item ::
    "'s crypto_lib \<Rightarrow> 's \<Rightarrow> item \<Rightarrow> random_source \<Rightarrow> error + (share \<times> random_source)" where
  "share_item L friendPassword it g0 =
     (let (fSalt, g1) = randomBytes 16 g0 in
      and_then (passwordToKey L friendPassword fSalt) (\<lambda>friendKey.
      and_then (encryptAES L friendKey (rawDEK it) g1) (\<lambda>(encFriend, g2).
        Inr (\<lparr>friendSalt = fSalt, encDEKFriend = encFriend\<rparr>, g2))))"

text \<open>
  A reader (the owner, then the friend) derives the key from the password and the
  salt, decrypts the wrapped DEK, imports it for decryption and decrypts the deed.
  Returns the raw DEK recovered and the text read.
\<close>

definition reader_decrypts ::
    "'s crypto_lib \<Rightarrow> 's \<Rightarrow> bytes \<Rightarrow> aes_encrypted \<Rightarrow> aes_encrypted \<Rightarrow> error + (bytes \<times> 's)" where
  "reader_decrypts L password salt0 encDEK encDeed =
     and_then (passwordToKey L password salt0) (\<lambda>derivedKey.
     and_then (decryptAES L derivedKey encDEK) (\<lambda>dekRaw.
     and_then (importKey_AES_GCM dekRaw False [Use_decrypt]) (\<lambda>dek.
     and_then (decryptAES L dek encDeed) (\<lambda>plain.
       Inr (dekRaw, utf8_decode L plain)))))"

text \<open>What the server stores: \<open>{ ciphertext, owner_key, friend_key }\<close>.\<close>

record db_stores =
  ciphertext :: aes_encrypted
  owner_key :: aes_encrypted
  friend_key :: aes_encrypted

definition stores :: "item \<Rightarrow> share \<Rightarrow> db_stores" where
  "stores it sh =
     \<lparr>ciphertext = encryptedDeed it, owner_key = encDEKOwner it, friend_key = encDEKFriend sh\<rparr>"

text \<open>What the flow prints.\<close>

record 's kitab_result =
  ownerDEKRaw :: bytes
  ownerReads :: 's
  friendDEKRaw :: bytes
  friendReads :: 's
  db_stored :: db_stores

definition kitab_flow ::
    "'s crypto_lib \<Rightarrow> 's \<Rightarrow> 's \<Rightarrow> 's \<Rightarrow> random_source \<Rightarrow> error + 's kitab_result" where
  "kitab_flow L ownerPassword friendPassword deed g0 =
     and_then (create_item L ownerPassword deed g0) (\<lambda>(it, g1).
     and_then (share_item L friendPassword it g1) (\<lambda>(sh, g2).
     and_then (reader_decrypts L ownerPassword (ownerSalt it) (encDEKOwner it) (encryptedDeed it))
       (\<lambda>(oRaw, oPlain).
     and_then (reader_decrypts L friendPassword (friendSalt sh) (encDEKFriend sh) (encryptedDeed it))
       (\<lambda>(fRaw, fPlain).
       Inr \<lparr>ownerDEKRaw = oRaw, ownerReads = oPlain, friendDEKRaw = fRaw, friendReads = fPlain,
            db_stored = stores it sh\<rparr>))))"

section \<open>JavaScript strings and the platform's UTF-8 codec\<close>

text \<open>
  A JavaScript string is a sequence of 16-bit code units. A code unit from D800 to DBFF
  is a high surrogate, one from DC00 to DFFF a low surrogate; a high surrogate followed
  by a low one stands for a code point from 10000 on, and a surrogate that is not part
  of such a pair is a lone surrogate.
\<close>

type_synonym code_unit = "16 word"
type_synonym js_string = "code_unit list"

definition is_high_surrogate :: "code_unit \<Rightarrow> bool" where
  "is_high_surrogate u \<longleftrightarrow> 0xD800 \<le> unat u \<and> unat u \<le> 0xDBFF"

definition is_low_surrogate :: "code_unit \<Rightarrow> bool" where
  "is_low_surrogate u \<longleftrightarrow> 0xDC00 \<le> unat u \<and> unat u \<le> 0xDFFF"

text \<open>The UTF-8 bytes of one code point: one to four bytes.\<close>

definition utf8_of_code_point :: "nat \<Rightarrow> bytes" where
  "utf8_of_code_point c =
     (if c < 0x80 then [of_nat c]
      else if c < 0x800 then [of_nat (0xC0 + c div 64), of_nat (0x80 + c mod 64)]
      else if c < 0x10000 then
        [of_nat (0xE0 + c div 4096), of_nat (0x80 + c div 64 mod 64), of_nat (0x80 + c mod 64)]
      else
        [of_nat (0xF0 + c div 262144), of_nat (0x80 + c div 4096 mod 64),
         of_nat (0x80 + c div 64 mod 64), of_nat (0x80 + c mod 64)])"

definition code_point_of_pair :: "code_unit \<Rightarrow> code_unit \<Rightarrow> nat" where
  "code_point_of_pair h l = 0x10000 + (unat h - 0xD800) * 1024 + (unat l - 0xDC00)"

text \<open>
  What \<open>cipher.update(data, 'utf8')\<close>, \<open>Buffer.from(data, 'utf8')\<close> and
  \<open>TextEncoder.encode\<close> do with a string: a surrogate pair is encoded as its code
  point, any other code unit as itself, and a lone surrogate as the replacement
  character U+FFFD, the bytes EF BF BD.
\<close>

fun utf8_of_utf16 :: "js_string \<Rightarrow> bytes" where
  "utf8_of_utf16 [] = []"
| "utf8_of_utf16 [u] =
     (if is_high_surrogate u \<or> is_low_surrogate u then [0xEF, 0xBF, 0xBD]
      else utf8_of_code_point (unat u))"
| "utf8_of_utf16 (u # l # rest) =
     (if is_high_surrogate u \<and> is_low_surrogate l
      then utf8_of_code_point (code_point_of_pair u l) @ utf8_of_utf16 rest
      else if is_high_surrogate u \<or> is_low_surrogate u
      then [0xEF, 0xBF, 0xBD] @ utf8_of_utf16 (l # rest)
      else utf8_of_code_point (unat u) @ utf8_of_utf16 (l # rest))"

text \<open>The code units of one code point: itself, or a surrogate pair from 10000 on.\<close>

definition utf16_of_code_point :: "nat \<Rightarrow> js_string" where
  "utf16_of_code_point c =
     (if c < 0x10000 then [of_nat c]
      else [of_nat (0xD800 + (c - 0x10000) div 1024), of_nat (0xDC00 + (c - 0x10000) mod 1024)])"

text \<open>
  What \<open>buffer.toString('utf8')\<close> and \<open>TextDecoder.decode\<close> do with bytes: the UTF-8
  decoder of the Encoding Standard. Its state is the number of continuation bytes still
  needed, the code point collected so far and the bounds the next byte must lie in. A
  byte that cannot start or continue a sequence yields U+FFFD; a byte that breaks off a
  sequence is read again as the start of the next one; a sequence cut off by the end of
  the input yields one U+FFFD. Overlong forms, surrogates and code points past 10FFFF
  are excluded by the lead bytes C2 to F4 and the bounds of the first continuation byte.
\<close>

function utf16_of_utf8_from :: "nat \<Rightarrow> nat \<Rightarrow> nat \<Rightarrow> nat \<Rightarrow> bytes \<Rightarrow> js_string" where
  "utf16_of_utf8_from needed cp lo hi [] = (if needed = 0 then [] else [0xFFFD])"
| "utf16_of_utf8_from needed cp lo hi (b # bs) =
     (let n = unat b in
      if needed = 0 then
        (if n < 0x80 then of_nat n # utf16_of_utf8_from 0 0 0x80 0xBF bs
         else if 0xC2 \<le> n \<and> n \<le> 0xDF then utf16_of_utf8_from 1 (n mod 32) 0x80 0xBF bs
         else if 0xE0 \<le> n \<and> n \<le> 0xEF then
           utf16_of_utf8_from 2 (n mod 16) (if n = 0xE0 then 0xA0 else 0x80)
             (if n = 0xED then 0x9F else 0xBF) bs
         else if 0xF0 \<le> n \<and> n \<le> 0xF4 then
           utf16_of_utf8_from 3 (n mod 8) (if n = 0xF0 then 0x90 else 0x80)
             (if n = 0xF4 then 0x8F else 0xBF) bs
         else 0xFFFD # utf16_of_utf8_from 0 0 0x80 0xBF bs)
      else if n < lo \<or> hi < n then 0xFFFD # utf16_of_utf8_from 0 0 0x80 0xBF (b # bs)
      else if needed = 1 then
        utf16_of_code_point (cp * 64 + n mod 64) @ utf16_of_utf8_from 0 0 0x80 0xBF bs
      else utf16_of_utf8_from (needed - 1) (cp * 64 + n mod 64) 0x80 0xBF bs)"
  by pat_completeness auto
termination
  by (relation "measure (\<lambda>(needed, cp, lo, hi, bs). 2 * length bs + (if needed = 0 then 0 else 1))")
     auto

definition utf16_of_utf8 :: "bytes \<Rightarrow> js_string" where
  "utf16_of_utf8 bs = utf16_of_utf8_from 0 0 0x80 0xBF bs"

text \<open>
  A library on JavaScript strings: the primitives of any library, with the platform's
  UTF-8 codec. This is what \<open>js/a.js\<close> runs on.
\<close>

definition with_js_codec :: "'s crypto_lib \<Rightarrow> js_string crypto_lib" where
  "with_js_codec L =
     \<lparr>pbkdf2_byte = pbkdf2_byte L, keystream_byte = keystream_byte L, tag_byte = tag_byte L,
      utf8_encode = utf8_of_utf16, utf8_decode = utf16_of_utf8\<rparr>"

section \<open>Notions the properties are stated with\<close>

text \<open>Every text a stored deed record holds: what is at rest in the database.\<close>

definition persisted :: "deedRecord \<Rightarrow> string list" where
  "persisted d =
     [deed_id d, owner_id d, encrypted_data d, deed_iv d, auth_tag d, salt d] @
     concat (map (\<lambda>s. [friend_id s, shared_key s]) (shared_with d))"

text \<open>
  A sequence of calls is gated when every decryption in it comes after a consultation
  of the access-control gate that returned Allow. The flag says whether an Allow has
  been seen so far.
\<close>

fun gated :: "bool \<Rightarrow> call list \<Rightarrow> bool" where
  "gated allowed [] = True"
| "gated allowed (Authorize d # cs) = gated (allowed \<or> d) cs"
| "gated allowed (Call_decrypt # cs) = (allowed \<and> gated allowed cs)"
| "gated allowed (c # cs) = gated allowed cs"

text \<open>Flipping bit \<open>j\<close> of a byte sequence: bit \<open>j mod 8\<close> of byte \<open>j div 8\<close>.\<close>

definition flip_bit_at :: "nat \<Rightarrow> bytes \<Rightarrow> bytes" where
  "flip_bit_at j bs = bs[j div 8 := flip_bit (j mod 8) (bs ! (j div 8))]"

text \<open>A string is well formed when it has no lone surrogate.\<close>

fun well_formed :: "js_string \<Rightarrow> bool" where
  "well_formed [] = True"
| "well_formed [u] = (\<not> is_high_surrogate u \<and> \<not> is_low_surrogate u)"
| "well_formed (u # l # rest) =
     (if is_high_surrogate u then is_low_surrogate l \<and> well_formed rest
      else \<not> is_low_surrogate u \<and> well_formed (l # rest))"

section \<open>A concrete library for evaluating the flows\<close>

text \<open>
  An instance of the library's interface on which the flows can be evaluated. Its
  codec is UTF-8 on ASCII text; its derivation, key stream and tag are small
  arithmetic functions of their arguments.
\<close>

definition sample_lib :: "string crypto_lib" where
  "sample_lib =
     \<lparr>pbkdf2_byte = (\<lambda>password salt0 iterations i.
        sum_list password + 3 * sum_list salt0 + of_nat iterations + of_nat (7 * i)),
      keystream_byte = (\<lambda>key iv0 i. sum_list key + 5 * sum_list iv0 + of_nat (11 * i + 1)),
      tag_byte = (\<lambda>key iv0 ct i. sum_list key + sum_list iv0 + sum_list ct + of_nat i),
      utf8_encode = map (\<lambda>c. of_nat (of_char c)),
      utf8_decode = map (\<lambda>b. char_of (unat b))\<rparr>"

definition sample_source :: random_source where
  "sample_source = \<lparr>tape = (\<lambda>i. of_nat (13 * i + 5)), pos = 0\<rparr>"

text \<open>The script run with its own constants, on the sample library and source.\<close>

definition sample_run :: "(script_error + string run_result) \<times> string world" where
  "sample_run =
     script sample_lib ''My secret good deed entry'' ''userPassword123!'' ''friendPassword456!''
       sample_source"

section \<open>Hexadecimal text, counter mode and the sealed object\<close>

lemma hex_val_hex_char: "n < 16 \<Longrightarrow> hex_val (hex_char n) = Some n"
  by (auto simp: hex_val_def hex_char_def Let_def)

lemma from_hex_toString_hex: "from_hex (toString_hex buf) = buf"
proof (induction buf)
  case Nil
  show ?case by (simp add: toString_hex_def)
next
  case (Cons b bs)
  have "unat b < 256" using unsigned_less [of b, where ?'a = nat] by simp
  then have d: "unat b div 16 < 16" by simp
  have m: "unat b mod 16 < 16" by simp
  have "toString_hex (b # bs) = hex_char (unat b div 16) # hex_char (unat b mod 16) # toString_hex bs"
    by (simp add: toString_hex_def)
  moreover have "(of_nat (unat b div 16 * 16 + unat b mod 16) :: byte) = b" by simp
  ultimately show ?case using Cons hex_val_hex_char [OF d] hex_val_hex_char [OF m] by simp
qed

lemma gcm_crypt_length: "length (gcm_crypt L k v off data) = length data"
  by (simp add: gcm_crypt_def)

lemma gcm_crypt_nth:
  "i < length data \<Longrightarrow> gcm_crypt L k v off data ! i = data ! i XOR keystream_byte L k v (off + i)"
  by (simp add: gcm_crypt_def nth_enumerate_eq)

lemma gcm_crypt_involution: "gcm_crypt L k v off (gcm_crypt L k v off data) = data"
  by (rule nth_equalityI) (simp_all add: gcm_crypt_length gcm_crypt_nth xor.assoc)

lemma gcm_tag_length: "length (gcm_tag L k v ct) = 16"
  by (simp add: gcm_tag_def)

lemma randomBytes_length: "length (fst (randomBytes n g)) = n"
  by (simp add: randomBytes_def)

lemma pbkdf2Sync_length: "length (pbkdf2Sync L password s c n) = n"
  by (simp add: pbkdf2Sync_def pbkdf2_def)

lemma encrypt_eq:
  assumes "length k = 32"
  shows "encrypt L data k g =
     Inr (\<lparr>encryptedData = gcm_crypt L k (fst (randomBytes 16 g)) 0 (utf8_encode L data),
           iv = fst (randomBytes 16 g),
           tag = gcm_tag L k (fst (randomBytes 16 g))
                   (gcm_crypt L k (fst (randomBytes 16 g)) 0 (utf8_encode L data))\<rparr>,
          snd (randomBytes 16 g))"
proof -
  have l: "length (fst (randomBytes 16 g)) = 16" by (rule randomBytes_length)
  then have "fst (randomBytes 16 g) \<noteq> []" by auto
  then show ?thesis
    using assms l
    by (simp add: encrypt_def createCipheriv_def cipher_update_def cipher_final_def getAuthTag_def
        Let_def split_beta)
qed

lemma decrypt_sealed:
  assumes "length k = 32" and "v \<noteq> []" and "length v \<le> 128"
  shows "decrypt L \<lparr>encryptedData = gcm_crypt L k v 0 p, iv = v, tag = gcm_tag L k v (gcm_crypt L k v 0 p)\<rparr> k
         = Inr (utf8_decode L p)"
  using assms
  by (simp add: decrypt_def createDecipheriv_def createCipheriv_def setAuthTag_def
      decipher_update_def decipher_final_def Let_def gcm_crypt_involution gcm_tag_length)

lemma decrypt_encrypt:
  assumes "length k = 32"
  shows "\<exists>obj g'. encrypt L data k g = Inr (obj, g') \<and>
           decrypt L obj k = Inr (utf8_decode L (utf8_encode L data))"
proof -
  have l: "length (fst (randomBytes 16 g)) = 16" by (rule randomBytes_length)
  then have "fst (randomBytes 16 g) \<noteq> []" by auto
  then show ?thesis
    using assms l by (simp add: encrypt_eq decrypt_sealed)
qed

section \<open>What each cycle of the script does\<close>

lemma console_log_simps:
  "rng (console_log a w) = rng w" "deeds (console_log a w) = deeds w"
  "calls (console_log a w) = calls w" "console (console_log a w) = console w @ [a]"
  by (simp_all add: console_log_def)

lemma called_simps:
  "rng (called c w) = rng w" "deeds (called c w) = deeds w"
  "calls (called c w) = calls w @ [c]" "console (called c w) = console w"
  by (simp_all add: called_def)

lemma deriveKey_None:
  "deriveKey L pw None g =
     ((pbkdf2Sync L pw (fst (randomBytes 16 g)) 100000 32, fst (randomBytes 16 g)), snd (randomBytes 16 g))"
  by (simp add: deriveKey_def split_beta)

lemma deriveKey_Some:
  "deriveKey L pw (Some s) g = ((pbkdf2Sync L pw s 100000 32, s), g)"
  by (simp add: deriveKey_def)

lemma cycle1_fst:
  "fst (cycle1 L d pw w) = Inr (pbkdf2Sync L pw (fst (randomBytes 16 (rng w))) 100000 32)"
  by (simp add: cycle1_def Let_def split_beta console_log_simps called_simps deriveKey_None
      encrypt_eq pbkdf2Sync_length)

lemma cycle1_calls:
  "calls (snd (cycle1 L d pw w)) = calls w @ [Call_deriveKey, Call_encrypt, Db_push]"
  by (simp add: cycle1_def Let_def split_beta console_log_simps called_simps deriveKey_None
      encrypt_eq pbkdf2Sync_length)

lemma cycle1_deeds:
  "deeds (snd (cycle1 L d pw w)) = deeds w @
     [(let s0 = fst (randomBytes 16 (rng w));
           k = pbkdf2Sync L pw s0 100000 32;
           v = fst (randomBytes 16 (snd (randomBytes 16 (rng w))));
           ct = gcm_crypt L k v 0 (utf8_encode L d)
       in \<lparr>deed_id = ''deed001'', owner_id = userId,
            encrypted_data = toString_hex ct,
            deed_iv = toString_hex v,
            auth_tag = toString_hex (gcm_tag L k v ct),
            salt = toString_hex s0,
            shared_with = [\<lparr>friend_id = friendId, shared_key = toString_hex k\<rparr>]\<rparr>)]"
  by (simp add: cycle1_def Let_def split_beta console_log_simps called_simps deriveKey_None
      encrypt_eq pbkdf2Sync_length)

lemma cycle2_deeds: "deeds (snd (cycle2 L fp w)) = deeds w"
  by (simp add: cycle2_def Let_def first_deed_def console_log_simps called_simps
      split: list.split sum.split)

lemma cycle3_deeds: "deeds (snd (cycle3 L pw w)) = deeds w"
  by (simp add: cycle3_def Let_def split_beta first_deed_def console_log_simps called_simps
      split: list.split sum.split)

lemma cycle2_fst: "fst (cycle2 L fp w) =
   (case deeds w of [] \<Rightarrow> Inl TypeError
    | d # _ \<Rightarrow> (case shared_with d of [] \<Rightarrow> Inl TypeError
       | s # _ \<Rightarrow> (case decrypt L (stored_obj d) (from_hex (shared_key s)) of
            Inl e \<Rightarrow> Inl (Crypto e) | Inr t \<Rightarrow> Inr t)))"
  by (simp add: cycle2_def Let_def first_deed_def console_log_simps called_simps
      split: list.split sum.split)

lemma cycle2_calls: "calls (snd (cycle2 L fp w)) = calls w @ Db_read #
   (case deeds w of [] \<Rightarrow> []
    | d # _ \<Rightarrow> (case shared_with d of [] \<Rightarrow> [] | s # _ \<Rightarrow> [Call_decrypt]))"
  by (simp add: cycle2_def Let_def first_deed_def console_log_simps called_simps
      split: list.split sum.split)

lemma cycle3_fst: "fst (cycle3 L pw w) =
   (case deeds w of [] \<Rightarrow> Inl TypeError
    | d # _ \<Rightarrow> (case decrypt L (stored_obj d) (pbkdf2Sync L pw (from_hex (salt d)) 100000 32) of
            Inl e \<Rightarrow> Inl (Crypto e)
          | Inr t \<Rightarrow> Inr (pbkdf2Sync L pw (from_hex (salt d)) 100000 32, t)))"
  by (simp add: cycle3_def Let_def split_beta first_deed_def console_log_simps called_simps deriveKey_Some
      split: list.split sum.split)

lemma cycle3_calls: "calls (snd (cycle3 L pw w)) = calls w @ Db_read #
   (case deeds w of [] \<Rightarrow> [] | d # _ \<Rightarrow> [Call_deriveKey, Call_decrypt])"
  by (simp add: cycle3_def Let_def split_beta first_deed_def console_log_simps called_simps deriveKey_Some
      split: list.split sum.split)

lemma stored_obj_sealed:
  "stored_obj \<lparr>deed_id = i, owner_id = ow, encrypted_data = toString_hex ct, deed_iv = toString_hex v,
               auth_tag = toString_hex t, salt = sa, shared_with = sh\<rparr>
   = \<lparr>encryptedData = ct, iv = v, tag = t\<rparr>"
  by (simp add: stored_obj_def from_hex_toString_hex)

lemma randomBytes_nonempty: "0 < n \<Longrightarrow> fst (randomBytes n g) \<noteq> []"
  using randomBytes_length [of n g] by auto

lemma script_eq:
  fixes L :: "'s crypto_lib"
  shows "script L d pw fp g =
     (Inr \<lparr>userKey = pbkdf2Sync L pw (fst (randomBytes 16 g)) 100000 32,
          friendDecrypted = utf8_decode L (utf8_encode L d),
          userKeyAgain = pbkdf2Sync L pw (fst (randomBytes 16 g)) 100000 32,
          userDecrypted = utf8_decode L (utf8_encode L d)\<rparr>,
      snd (cycle3 L pw (snd (cycle2 L fp (snd (cycle1 L d pw \<lparr>rng = g, deeds = [], console = [], calls = []\<rparr>))))))"
proof -
  define w0 :: "'s world" where "w0 = \<lparr>rng = g, deeds = [], console = [], calls = []\<rparr>"
  define w1 where "w1 = snd (cycle1 L d pw w0)"
  define w2 where "w2 = snd (cycle2 L fp w1)"
  define w3 where "w3 = snd (cycle3 L pw w2)"
  define k where "k = pbkdf2Sync L pw (fst (randomBytes 16 g)) 100000 32"
  define t where "t = utf8_decode L (utf8_encode L d)"
  have len: "length k = 32" by (simp add: k_def pbkdf2Sync_length)
  have c1: "cycle1 L d pw w0 = (Inr k, w1)"
    using cycle1_fst [of L d pw w0] by (simp add: w1_def w0_def k_def prod_eq_iff)
  have d1: "deeds w1 = [\<lparr>deed_id = ''deed001'', owner_id = userId,
            encrypted_data = toString_hex (gcm_crypt L k (fst (randomBytes 16 (snd (randomBytes 16 g)))) 0 (utf8_encode L d)),
            deed_iv = toString_hex (fst (randomBytes 16 (snd (randomBytes 16 g)))),
            auth_tag = toString_hex (gcm_tag L k (fst (randomBytes 16 (snd (randomBytes 16 g))))
               (gcm_crypt L k (fst (randomBytes 16 (snd (randomBytes 16 g)))) 0 (utf8_encode L d))),
            salt = toString_hex (fst (randomBytes 16 g)),
            shared_with = [\<lparr>friend_id = friendId, shared_key = toString_hex k\<rparr>]\<rparr>]"
    unfolding w1_def by (simp add: cycle1_deeds w0_def Let_def k_def)
  have "fst (cycle2 L fp w1) = Inr t"
    using len
    by (simp add: cycle2_fst d1 stored_obj_sealed from_hex_toString_hex decrypt_sealed
        randomBytes_nonempty randomBytes_length t_def)
  then have c2: "cycle2 L fp w1 = (Inr t, w2)"
    by (simp add: w2_def prod_eq_iff)
  have d2: "deeds w2 = deeds w1" by (simp add: w2_def cycle2_deeds)
  have "fst (cycle3 L pw w2) = Inr (k, t)"
    using len
    by (simp add: cycle3_fst d2 d1 stored_obj_sealed from_hex_toString_hex decrypt_sealed
        randomBytes_nonempty randomBytes_length t_def k_def [symmetric])
  then have c3: "cycle3 L pw w2 = (Inr (k, t), w3)"
    by (simp add: w3_def prod_eq_iff)
  have "script L d pw fp g =
      (Inr \<lparr>userKey = k, friendDecrypted = t, userKeyAgain = k, userDecrypted = t\<rparr>, w3)"
    unfolding script_def w0_def [symmetric] by (simp add: c1 c2 c3)
  then show ?thesis
    by (simp add: k_def t_def w3_def w2_def w1_def w0_def)
qed

lemma script_deeds:
  "deeds (snd (script L d pw fp g)) =
     [(let s0 = fst (randomBytes 16 g);
           k = pbkdf2Sync L pw s0 100000 32;
           v = fst (randomBytes 16 (snd (randomBytes 16 g)));
           ct = gcm_crypt L k v 0 (utf8_encode L d)
       in \<lparr>deed_id = ''deed001'', owner_id = userId,
            encrypted_data = toString_hex ct,
            deed_iv = toString_hex v,
            auth_tag = toString_hex (gcm_tag L k v ct),
            salt = toString_hex s0,
            shared_with = [\<lparr>friend_id = friendId, shared_key = toString_hex k\<rparr>]\<rparr>)]"
  by (simp add: script_eq cycle3_deeds cycle2_deeds cycle1_deeds)

lemma script_calls:
  "calls (snd (script L d pw fp g)) =
     [Call_deriveKey, Call_encrypt, Db_push, Db_read, Call_decrypt, Db_read, Call_deriveKey, Call_decrypt]"
  by (simp add: script_eq cycle3_calls cycle2_calls cycle1_calls cycle2_deeds cycle1_deeds Let_def)

section \<open>The envelope flow, step by step\<close>

lemma passwordToKey_eq:
  "passwordToKey L password s =
     Inr \<lparr>algorithm = AES_GCM, raw = pbkdf2 L (utf8_encode L password) s 100000 32,
          extractable = False, usages = [Use_encrypt, Use_decrypt]\<rparr>"
  by (simp add: passwordToKey_def importKey_PBKDF2_def subtle_deriveKey_def)

lemma encryptAES_eq:
  assumes "algorithm k = AES_GCM" and "Use_encrypt \<in> set (usages k)"
  shows "encryptAES L k p g =
     Inr (\<lparr>aes_iv = fst (randomBytes 12 g),
           aes_cipher = gcm_crypt L (raw k) (fst (randomBytes 12 g)) 0 p @
                        gcm_tag L (raw k) (fst (randomBytes 12 g))
                          (gcm_crypt L (raw k) (fst (randomBytes 12 g)) 0 p)\<rparr>,
          snd (randomBytes 12 g))"
  using assms by (simp add: encryptAES_def subtle_encrypt_def split_beta Let_def)

lemma decryptAES_sealed:
  assumes "algorithm k = AES_GCM" and "Use_decrypt \<in> set (usages k)" and "raw k = r"
  shows "decryptAES L k \<lparr>aes_iv = v, aes_cipher = gcm_crypt L r v 0 p @ gcm_tag L r v (gcm_crypt L r v 0 p)\<rparr>
         = Inr p"
  using assms
  by (simp add: decryptAES_def subtle_decrypt_def Let_def gcm_tag_length gcm_crypt_length
      gcm_crypt_involution)

lemma create_item_eq:
  "create_item L op deed g0 =
    (let dk = fst (randomBytes 32 g0); g1 = snd (randomBytes 32 g0);
         dek = \<lparr>algorithm = AES_GCM, raw = dk, extractable = True, usages = [Use_encrypt, Use_decrypt]\<rparr>;
         v1 = fst (randomBytes 12 g1); g2 = snd (randomBytes 12 g1);
         c1 = gcm_crypt L dk v1 0 (utf8_encode L deed);
         os = fst (randomBytes 16 g2); g3 = snd (randomBytes 16 g2);
         ok = pbkdf2 L (utf8_encode L op) os 100000 32;
         v2 = fst (randomBytes 12 g3); g4 = snd (randomBytes 12 g3);
         c2 = gcm_crypt L ok v2 0 dk
     in Inr (\<lparr>DEK = dek,
              encryptedDeed = \<lparr>aes_iv = v1, aes_cipher = c1 @ gcm_tag L dk v1 c1\<rparr>,
              ownerSalt = os, rawDEK = dk,
              encDEKOwner = \<lparr>aes_iv = v2, aes_cipher = c2 @ gcm_tag L ok v2 c2\<rparr>\<rparr>, g4))"
  by (simp add: create_item_def generateKey_def and_then_def split_beta Let_def encryptAES_eq
      passwordToKey_eq exportKey_def)

lemma share_item_eq:
  "share_item L fp it g0 =
    (let fs = fst (randomBytes 16 g0); g1 = snd (randomBytes 16 g0);
         fk = pbkdf2 L (utf8_encode L fp) fs 100000 32;
         v = fst (randomBytes 12 g1); g2 = snd (randomBytes 12 g1);
         c = gcm_crypt L fk v 0 (rawDEK it)
     in Inr (\<lparr>friendSalt = fs, encDEKFriend = \<lparr>aes_iv = v, aes_cipher = c @ gcm_tag L fk v c\<rparr>\<rparr>, g2))"
  by (simp add: share_item_def and_then_def split_beta Let_def encryptAES_eq passwordToKey_eq)

lemma reader_decrypts_sealed:
  assumes "length dk = 32" and "kek = pbkdf2 L (utf8_encode L password) s 100000 32"
  shows "reader_decrypts L password s
           \<lparr>aes_iv = v, aes_cipher = gcm_crypt L kek v 0 dk @ gcm_tag L kek v (gcm_crypt L kek v 0 dk)\<rparr>
           \<lparr>aes_iv = v', aes_cipher = gcm_crypt L dk v' 0 p @ gcm_tag L dk v' (gcm_crypt L dk v' 0 p)\<rparr>
         = Inr (dk, utf8_decode L p)"
  using assms
  by (simp add: reader_decrypts_def and_then_def passwordToKey_eq decryptAES_sealed
      importKey_AES_GCM_def)

lemma kitab_flow_eq:
  "\<exists>it g1 sh g2.
     create_item L op deed g0 = Inr (it, g1) \<and>
     share_item L fp it g1 = Inr (sh, g2) \<and>
     kitab_flow L op fp deed g0 =
       Inr \<lparr>ownerDEKRaw = rawDEK it, ownerReads = utf8_decode L (utf8_encode L deed),
            friendDEKRaw = rawDEK it, friendReads = utf8_decode L (utf8_encode L deed),
            db_stored = stores it sh\<rparr>"
proof -
  have len: "length (fst (randomBytes 32 g0)) = 32" by (rule randomBytes_length)
  show ?thesis
    using len
    by (simp add: kitab_flow_def create_item_eq share_item_eq and_then_def Let_def
        reader_decrypts_sealed)
qed

section \<open>Flipped bits and the tag check\<close>

lemma flip_bit_at_length: "length (flip_bit_at j bs) = length bs"
  by (simp add: flip_bit_at_def)

lemma flip_bit_byte_neq: "flip_bit (j mod 8) (b :: byte) \<noteq> b"
proof
  assume "flip_bit (j mod 8) b = b"
  then have "bit (flip_bit (j mod 8) b) (j mod 8) = bit b (j mod 8)" by simp
  then show False by (simp add: bit_flip_bit_iff)
qed

lemma flip_bit_at_neq: "j < 8 * length bs \<Longrightarrow> flip_bit_at j bs \<noteq> bs"
proof
  assume j: "j < 8 * length bs" and e: "flip_bit_at j bs = bs"
  from j have i: "j div 8 < length bs" by (simp add: div_less_iff_less_mult mult.commute)
  from e have "flip_bit_at j bs ! (j div 8) = bs ! (j div 8)" by simp
  with i show False by (simp add: flip_bit_at_def flip_bit_byte_neq)
qed

lemma flip_bit_at_append:
  "flip_bit_at j (a @ b) =
     (if j < 8 * length a then flip_bit_at j a @ b else a @ flip_bit_at (j - 8 * length a) b)"
proof (cases "j < 8 * length a")
  case True
  then have "j div 8 < length a" by (simp add: div_less_iff_less_mult mult.commute)
  then show ?thesis using True by (simp add: flip_bit_at_def list_update_append nth_append)
next
  case False
  then have ge: "8 * length a \<le> j" by simp
  then have n: "\<not> j div 8 < length a" by (simp add: div_less_iff_less_mult mult.commute)
  from ge obtain r where r: "j = 8 * length a + r" by (auto simp: le_iff_add)
  have d: "(j - 8 * length a) div 8 = j div 8 - length a" by (simp add: r)
  have m: "(j - 8 * length a) mod 8 = j mod 8" by (simp add: r)
  show ?thesis using False n by (simp add: flip_bit_at_def list_update_append nth_append d m)
qed

lemma encrypt_Inr_key: "encrypt L data k g = Inr x \<Longrightarrow> length k = 32"
  by (simp add: encrypt_def createCipheriv_def split_beta split: if_splits)

lemma encryptAES_Inr_key:
  "encryptAES L k p g = Inr x \<Longrightarrow> algorithm k = AES_GCM \<and> Use_encrypt \<in> set (usages k)"
  by (simp add: encryptAES_def subtle_encrypt_def split_beta split: if_splits)

text \<open>\<open>decrypt\<close> hands out a text only when the tag it was given is the library's tag
  of the IV and the ciphertext it was given; what \<open>update\<close> released is dropped
  otherwise.\<close>

lemma decrypt_Inr_tag:
  assumes "decrypt L obj k = Inr t"
  shows "take (length (tag obj)) (gcm_tag L k (iv obj) (encryptedData obj)) = tag obj"
  using assms
  by (auto simp: decrypt_def createDecipheriv_def createCipheriv_def setAuthTag_def
      decipher_update_def decipher_final_def Let_def split: if_splits)

lemma decryptAES_Inr_tag:
  assumes "decryptAES L key enc = Inr p"
  shows "gcm_tag L (raw key) (aes_iv enc) (take (length (aes_cipher enc) - 16) (aes_cipher enc)) =
         drop (length (aes_cipher enc) - 16) (aes_cipher enc)"
  using assms
  by (auto simp: decryptAES_def subtle_decrypt_def Let_def split: if_splits)

text \<open>A sealed object with one bit of its tag flipped is refused.\<close>

lemma decrypt_tag_bit_flipped:
  assumes enc: "encrypt L data k g = Inr (obj, g')"
    and j: "j < 8 * length (tag obj)"
  shows "decrypt L (obj\<lparr>tag := flip_bit_at j (tag obj)\<rparr>) k = Inl AuthenticationFailure"
proof -
  from enc have k: "length k = 32" by (rule encrypt_Inr_key)
  define v where "v = fst (randomBytes 16 g)"
  define ct where "ct = gcm_crypt L k v 0 (utf8_encode L data)"
  have obj: "obj = \<lparr>encryptedData = ct, iv = v, tag = gcm_tag L k v ct\<rparr>"
    using enc k by (simp add: encrypt_eq v_def ct_def)
  have lv: "length v = 16" by (simp add: v_def randomBytes_length)
  then have v: "v \<noteq> []" by auto
  from j obj have "j < 8 * length (gcm_tag L k v ct)" by simp
  then have "flip_bit_at j (gcm_tag L k v ct) \<noteq> gcm_tag L k v ct"
    by (rule flip_bit_at_neq)
  then have "gcm_tag L k v ct \<noteq> flip_bit_at j (gcm_tag L k v ct)" by (rule not_sym)
  with k v lv show ?thesis
    by (simp add: obj decrypt_def createDecipheriv_def createCipheriv_def setAuthTag_def
        decipher_update_def decipher_final_def Let_def gcm_tag_length flip_bit_at_length)
qed

lemma decryptAES_tag_bit_flipped:
  assumes ud: "Use_decrypt \<in> set (usages k)"
    and enc: "encryptAES L k p g = Inr (enc, g')"
    and lo: "8 * length p \<le> j"
    and j: "j < 8 * length (aes_cipher enc)"
  shows "decryptAES L k (enc\<lparr>aes_cipher := flip_bit_at j (aes_cipher enc)\<rparr>) =
         Inl AuthenticationFailure"
proof -
  from enc have a: "algorithm k = AES_GCM" and ue: "Use_encrypt \<in> set (usages k)"
    using encryptAES_Inr_key by blast+
  define v where "v = fst (randomBytes 12 g)"
  define ct where "ct = gcm_crypt L (raw k) v 0 p"
  define t where "t = gcm_tag L (raw k) v ct"
  have e: "enc = \<lparr>aes_iv = v, aes_cipher = ct @ t\<rparr>"
    using enc a ue by (simp add: encryptAES_eq v_def ct_def t_def)
  have lt: "length t = 16" by (simp add: t_def gcm_tag_length)
  have lc: "length ct = length p" by (simp add: ct_def gcm_crypt_length)
  from lo lc have n: "\<not> j < 8 * length ct" by simp
  with j e lt have "j - 8 * length ct < 8 * length t" by auto
  then have "flip_bit_at (j - 8 * length ct) t \<noteq> t" by (rule flip_bit_at_neq)
  then have "t \<noteq> flip_bit_at (j - 8 * length ct) t" by (rule not_sym)
  with a ud n show ?thesis
    by (simp add: e decryptAES_def subtle_decrypt_def Let_def lt flip_bit_at_append
        flip_bit_at_length t_def [symmetric])
qed

lemma sample_lib_codec: "utf8_decode sample_lib (utf8_encode sample_lib s) = s"
proof -
  have "char_of (unat (of_nat (of_char c) :: byte)) = c" for c :: char
    by (simp add: unat_of_nat)
  then show ?thesis by (simp add: sample_lib_def map_idI)
qed

lemma randomBytes_eq:
  "fst (randomBytes n g) = map (tape g) [pos g ..< pos g + n]"
  "pos (snd (randomBytes n g)) = pos g + n"
  "tape (snd (randomBytes n g)) = tape g"
  by (simp_all add: randomBytes_def)

lemma stored_a_js:
  "\<exists>r w s0 g1 obj g2.
      script L d pw fpw g = (Inr r, w) \<and>
      deriveKey L pw None g = ((userKey r, s0), g1) \<and>
      encrypt L d (userKey r) g1 = Inr (obj, g2) \<and>
      deeds w =
        [\<lparr>deed_id = ''deed001'', owner_id = userId,
          encrypted_data = toString_hex (encryptedData obj),
          deed_iv = toString_hex (iv obj),
          auth_tag = toString_hex (tag obj),
          salt = toString_hex s0,
          shared_with = [\<lparr>friend_id = friendId, shared_key = toString_hex (userKey r)\<rparr>]\<rparr>]"
  by (simp add: script_eq deriveKey_None encrypt_eq pbkdf2Sync_length cycle3_deeds cycle2_deeds
      cycle1_deeds Let_def)

lemma stored_kitab:
  "\<exists>it g1 sh g2 r ko kf ga ga' gb gb' gc gc'.
      create_item L op deed g = Inr (it, g1) \<and>
      share_item L fp it g1 = Inr (sh, g2) \<and>
      kitab_flow L op fp deed g = Inr r \<and>
      db_stored r =
        \<lparr>ciphertext = encryptedDeed it, owner_key = encDEKOwner it, friend_key = encDEKFriend sh\<rparr> \<and>
      encryptAES L (DEK it) (utf8_encode L deed) gc = Inr (encryptedDeed it, gc') \<and>
      passwordToKey L op (ownerSalt it) = Inr ko \<and>
      encryptAES L ko (rawDEK it) ga = Inr (encDEKOwner it, ga') \<and>
      passwordToKey L fp (friendSalt sh) = Inr kf \<and>
      encryptAES L kf (rawDEK it) gb = Inr (encDEKFriend sh, gb')"
proof -
  obtain it g1 sh g2 where c: "create_item L op deed g = Inr (it, g1)"
    and s: "share_item L fp it g1 = Inr (sh, g2)"
    and f: "kitab_flow L op fp deed g =
       Inr \<lparr>ownerDEKRaw = rawDEK it, ownerReads = utf8_decode L (utf8_encode L deed),
            friendDEKRaw = rawDEK it, friendReads = utf8_decode L (utf8_encode L deed),
            db_stored = stores it sh\<rparr>"
    using kitab_flow_eq [of L op deed g fp] by blast
  define ga where "ga = snd (randomBytes 32 g)"
  define gb where "gb = snd (randomBytes 16 (snd (randomBytes 12 ga)))"
  define gc where "gc = snd (randomBytes 16 g1)"
  define ko where "ko = \<lparr>algorithm = AES_GCM, raw = pbkdf2 L (utf8_encode L op) (ownerSalt it) 100000 32,
       extractable = False, usages = [Use_encrypt, Use_decrypt]\<rparr>"
  define kf where "kf = \<lparr>algorithm = AES_GCM, raw = pbkdf2 L (utf8_encode L fp) (friendSalt sh) 100000 32,
       extractable = False, usages = [Use_encrypt, Use_decrypt]\<rparr>"
  from c have e1: "encryptAES L (DEK it) (utf8_encode L deed) ga = Inr (encryptedDeed it, snd (randomBytes 12 ga))"
    by (auto simp: create_item_eq Let_def encryptAES_eq ga_def)
  from c have e2: "encryptAES L ko (rawDEK it) gb = Inr (encDEKOwner it, snd (randomBytes 12 gb))"
    by (auto simp: create_item_eq Let_def encryptAES_eq ga_def gb_def ko_def)
  from s have e3: "encryptAES L kf (rawDEK it) gc = Inr (encDEKFriend sh, snd (randomBytes 12 gc))"
    by (auto simp: share_item_eq Let_def encryptAES_eq gc_def kf_def)
  have p1: "passwordToKey L op (ownerSalt it) = Inr ko" by (simp add: passwordToKey_eq ko_def)
  have p2: "passwordToKey L fp (friendSalt sh) = Inr kf" by (simp add: passwordToKey_eq kf_def)
  have st: "db_stored \<lparr>ownerDEKRaw = rawDEK it, ownerReads = utf8_decode L (utf8_encode L deed),
            friendDEKRaw = rawDEK it, friendReads = utf8_decode L (utf8_encode L deed),
            db_stored = stores it sh\<rparr> =
        \<lparr>ciphertext = encryptedDeed it, owner_key = encDEKOwner it, friend_key = encDEKFriend sh\<rparr>"
    by (simp add: stores_def)
  from c s f st e1 p1 e2 p2 e3 show ?thesis by metis
qed

section \<open>The UTF-8 codec on well-formed strings\<close>

text \<open>Decoding the encoding of one code point gives its code units back: by the number
  of bytes of the encoding.\<close>

lemma unat_byte: "x < 256 \<Longrightarrow> unat (of_nat x :: byte) = x"
  by (simp add: unat_of_nat)

lemma decode_1:
  assumes "c < 0x80"
  shows "utf16_of_utf8_from 0 0 0x80 0xBF (utf8_of_code_point c @ bs) =
         utf16_of_code_point c @ utf16_of_utf8_from 0 0 0x80 0xBF bs"
  using assms by (simp add: utf8_of_code_point_def utf16_of_code_point_def unat_byte)

lemma lead2_mod: "a < 32 \<Longrightarrow> (192 + a) mod 32 = (a::nat)"
  using mod_mult_self1 [of a 6 32] by (simp add: add.commute)

lemma lead3_mod: "a < 16 \<Longrightarrow> (224 + a) mod 16 = (a::nat)"
  using mod_mult_self1 [of a 14 16] by (simp add: add.commute)

lemma lead4_mod: "a < 8 \<Longrightarrow> (240 + a) mod 8 = (a::nat)"
  using mod_mult_self1 [of a 30 8] by (simp add: add.commute)

lemma cont_mod: "a < 64 \<Longrightarrow> (128 + a) mod 64 = (a::nat)"
  using mod_mult_self1 [of a 2 64] by (simp add: add.commute)

lemma step_ascii:
  "unat b < 0x80 \<Longrightarrow>
   utf16_of_utf8_from 0 cp lo hi (b # rest) = of_nat (unat b) # utf16_of_utf8_from 0 0 0x80 0xBF rest"
  by (simp add: Let_def)

lemma step_lead2:
  "0xC2 \<le> unat b \<Longrightarrow> unat b \<le> 0xDF \<Longrightarrow>
   utf16_of_utf8_from 0 cp lo hi (b # rest) = utf16_of_utf8_from 1 (unat b mod 32) 0x80 0xBF rest"
  by (simp add: Let_def)

lemma step_lead3:
  "0xE0 \<le> unat b \<Longrightarrow> unat b \<le> 0xEF \<Longrightarrow>
   utf16_of_utf8_from 0 cp lo hi (b # rest) =
     utf16_of_utf8_from 2 (unat b mod 16) (if unat b = 0xE0 then 0xA0 else 0x80)
       (if unat b = 0xED then 0x9F else 0xBF) rest"
  by (simp add: Let_def)

lemma step_lead4:
  "0xF0 \<le> unat b \<Longrightarrow> unat b \<le> 0xF4 \<Longrightarrow>
   utf16_of_utf8_from 0 cp lo hi (b # rest) =
     utf16_of_utf8_from 3 (unat b mod 8) (if unat b = 0xF0 then 0x90 else 0x80)
       (if unat b = 0xF4 then 0x8F else 0xBF) rest"
  by (simp add: Let_def)

lemma step_cont:
  "1 < needed \<Longrightarrow> lo \<le> unat b \<Longrightarrow> unat b \<le> hi \<Longrightarrow>
   utf16_of_utf8_from needed cp lo hi (b # rest) =
     utf16_of_utf8_from (needed - 1) (cp * 64 + unat b mod 64) 0x80 0xBF rest"
  by (simp add: Let_def)

lemma step_last:
  "lo \<le> unat b \<Longrightarrow> unat b \<le> hi \<Longrightarrow>
   utf16_of_utf8_from 1 cp lo hi (b # rest) =
     utf16_of_code_point (cp * 64 + unat b mod 64) @ utf16_of_utf8_from 0 0 0x80 0xBF rest"
  by (simp add: Let_def)

lemma decode_2:
  assumes "0x80 \<le> c" "c < 0x800"
  shows "utf16_of_utf8_from 0 0 0x80 0xBF (utf8_of_code_point c @ bs) =
         utf16_of_code_point c @ utf16_of_utf8_from 0 0 0x80 0xBF bs"
proof -
  define a where "a = c div 64"
  define b where "b = c mod 64"
  define x1 :: byte where "x1 = of_nat (0xC0 + a)"
  define x2 :: byte where "x2 = of_nat (0x80 + b)"
  have c: "c = a * 64 + b" and b: "b < 64" by (simp_all add: a_def b_def)
  have a: "2 \<le> a" "a < 32" using assms c b by linarith+
  have u1: "unat x1 = 0xC0 + a" unfolding x1_def using a by (intro unat_byte) simp
  have u2: "unat x2 = 0x80 + b" unfolding x2_def using b by (intro unat_byte) simp
  have e: "utf8_of_code_point c = [x1, x2]"
    using assms unfolding utf8_of_code_point_def a_def b_def x1_def x2_def by simp
  have s1: "utf16_of_utf8_from 0 0 0x80 0xBF (x1 # x2 # bs) = utf16_of_utf8_from 1 a 0x80 0xBF (x2 # bs)"
    using step_lead2 [of x1 0 "0x80" "0xBF" "x2 # bs"] a by (simp add: u1 lead2_mod)
  have s2: "utf16_of_utf8_from 1 a 0x80 0xBF (x2 # bs) =
      utf16_of_code_point c @ utf16_of_utf8_from 0 0 0x80 0xBF bs"
    using step_last [of "0x80" x2 "0xBF" a bs] b by (simp add: u2 cont_mod c)
  show ?thesis by (simp only: e append_Cons append_Nil s1 s2)
qed

lemma decode_3:
  assumes "0x800 \<le> c" "c < 0x10000" "c < 0xD800 \<or> 0xDFFF < c"
  shows "utf16_of_utf8_from 0 0 0x80 0xBF (utf8_of_code_point c @ bs) =
         utf16_of_code_point c @ utf16_of_utf8_from 0 0 0x80 0xBF bs"
proof -
  define a where "a = c div 4096"
  define m where "m = c div 64 mod 64"
  define b where "b = c mod 64"
  define x1 :: byte where "x1 = of_nat (0xE0 + a)"
  define x2 :: byte where "x2 = of_nat (0x80 + m)"
  define x3 :: byte where "x3 = of_nat (0x80 + b)"
  define lo :: nat where "lo = (if a = 0 then 0xA0 else 0x80)"
  define hi :: nat where "hi = (if a = 13 then 0x9F else 0xBF)"
  have b: "b < 64" and m: "m < 64" by (simp_all add: m_def b_def)
  have "c div 64 div 64 = a" by (simp add: a_def div_mult2_eq)
  then have "c div 64 = a * 64 + c div 64 mod 64" using div_mult_mod_eq [of "c div 64" 64] by simp
  then have q: "c div 64 = a * 64 + m" by (simp add: m_def)
  have "c = c div 64 * 64 + b" by (simp add: b_def)
  with q have c: "c = (a * 64 + m) * 64 + b" by simp
  then have cf: "c = a * 4096 + m * 64 + b" by simp
  have a: "a < 16" using assms cf b m by linarith
  have l: "a = 0 \<Longrightarrow> 32 \<le> m" using assms cf b m by linarith
  have h: "a = 13 \<Longrightarrow> m < 32" using assms cf b m by linarith
  have r: "lo \<le> 0x80 + m" "0x80 + m \<le> hi" using l h m by (auto simp: lo_def hi_def)
  have u1: "unat x1 = 0xE0 + a" unfolding x1_def using a by (intro unat_byte) simp
  have u2: "unat x2 = 0x80 + m" unfolding x2_def using m by (intro unat_byte) simp
  have u3: "unat x3 = 0x80 + b" unfolding x3_def using b by (intro unat_byte) simp
  have e: "utf8_of_code_point c = [x1, x2, x3]"
    using assms unfolding utf8_of_code_point_def a_def m_def b_def x1_def x2_def x3_def by simp
  have s1: "utf16_of_utf8_from 0 0 0x80 0xBF (x1 # x2 # x3 # bs) =
      utf16_of_utf8_from 2 a lo hi (x2 # x3 # bs)"
    using step_lead3 [of x1 0 "0x80" "0xBF" "x2 # x3 # bs"] a
    by (simp add: u1 lead3_mod lo_def hi_def)
  have s2: "utf16_of_utf8_from 2 a lo hi (x2 # x3 # bs) =
      utf16_of_utf8_from 1 (a * 64 + m) 0x80 0xBF (x3 # bs)"
    using step_cont [of 2 lo x2 hi a "x3 # bs"] r m by (simp add: u2 cont_mod)
  have s3: "utf16_of_utf8_from 1 (a * 64 + m) 0x80 0xBF (x3 # bs) =
      utf16_of_code_point c @ utf16_of_utf8_from 0 0 0x80 0xBF bs"
    using step_last [of "0x80" x3 "0xBF" "a * 64 + m" bs] b by (simp add: u3 cont_mod c)
  show ?thesis by (simp only: e append_Cons append_Nil s1 s2 s3)
qed

lemma decode_4:
  assumes "0x10000 \<le> c" "c < 0x110000"
  shows "utf16_of_utf8_from 0 0 0x80 0xBF (utf8_of_code_point c @ bs) =
         utf16_of_code_point c @ utf16_of_utf8_from 0 0 0x80 0xBF bs"
proof -
  define a where "a = c div 262144"
  define n where "n = c div 4096 mod 64"
  define m where "m = c div 64 mod 64"
  define b where "b = c mod 64"
  define x1 :: byte where "x1 = of_nat (0xF0 + a)"
  define x2 :: byte where "x2 = of_nat (0x80 + n)"
  define x3 :: byte where "x3 = of_nat (0x80 + m)"
  define x4 :: byte where "x4 = of_nat (0x80 + b)"
  define lo :: nat where "lo = (if a = 0 then 0x90 else 0x80)"
  define hi :: nat where "hi = (if a = 4 then 0x8F else 0xBF)"
  have b: "b < 64" and m: "m < 64" and n: "n < 64" by (simp_all add: n_def m_def b_def)
  have "c div 4096 div 64 = a" by (simp add: a_def div_mult2_eq)
  then have "c div 4096 = a * 64 + c div 4096 mod 64"
    using div_mult_mod_eq [of "c div 4096" 64] by simp
  then have q2: "c div 4096 = a * 64 + n" by (simp add: n_def)
  have "c div 64 div 64 = c div 4096" by (simp add: div_mult2_eq)
  then have "c div 64 = c div 4096 * 64 + c div 64 mod 64"
    using div_mult_mod_eq [of "c div 64" 64] by simp
  then have q1: "c div 64 = (a * 64 + n) * 64 + m" by (simp add: m_def q2)
  have "c = c div 64 * 64 + b" by (simp add: b_def)
  with q1 have c: "c = ((a * 64 + n) * 64 + m) * 64 + b" by simp
  then have cf: "c = a * 262144 + n * 4096 + m * 64 + b" by simp
  have a: "a < 5" using assms cf b m n by linarith
  have l: "a = 0 \<Longrightarrow> 16 \<le> n" using assms cf b m n by linarith
  have h: "a = 4 \<Longrightarrow> n < 16" using assms cf b m n by linarith
  have r: "lo \<le> 0x80 + n" "0x80 + n \<le> hi" using l h n by (auto simp: lo_def hi_def)
  have u1: "unat x1 = 0xF0 + a" unfolding x1_def using a by (intro unat_byte) simp
  have u2: "unat x2 = 0x80 + n" unfolding x2_def using n by (intro unat_byte) simp
  have u3: "unat x3 = 0x80 + m" unfolding x3_def using m by (intro unat_byte) simp
  have u4: "unat x4 = 0x80 + b" unfolding x4_def using b by (intro unat_byte) simp
  have e: "utf8_of_code_point c = [x1, x2, x3, x4]"
    using assms unfolding utf8_of_code_point_def a_def n_def m_def b_def x1_def x2_def x3_def x4_def
    by simp
  have s1: "utf16_of_utf8_from 0 0 0x80 0xBF (x1 # x2 # x3 # x4 # bs) =
      utf16_of_utf8_from 3 a lo hi (x2 # x3 # x4 # bs)"
    using step_lead4 [of x1 0 "0x80" "0xBF" "x2 # x3 # x4 # bs"] a
    by (simp add: u1 lead4_mod lo_def hi_def)
  have s2: "utf16_of_utf8_from 3 a lo hi (x2 # x3 # x4 # bs) =
      utf16_of_utf8_from 2 (a * 64 + n) 0x80 0xBF (x3 # x4 # bs)"
    using step_cont [of 3 lo x2 hi a "x3 # x4 # bs"] r n by (simp add: u2 cont_mod)
  have s3: "utf16_of_utf8_from 2 (a * 64 + n) 0x80 0xBF (x3 # x4 # bs) =
      utf16_of_utf8_from 1 ((a * 64 + n) * 64 + m) 0x80 0xBF (x4 # bs)"
    using step_cont [of 2 "0x80" x3 "0xBF" "a * 64 + n" "x4 # bs"] m by (simp add: u3 cont_mod)
  have s4: "utf16_of_utf8_from 1 ((a * 64 + n) * 64 + m) 0x80 0xBF (x4 # bs) =
      utf16_of_code_point c @ utf16_of_utf8_from 0 0 0x80 0xBF bs"
    using step_last [of "0x80" x4 "0xBF" "(a * 64 + n) * 64 + m" bs] b by (simp add: u4 cont_mod c)
  show ?thesis by (simp only: e append_Cons append_Nil s1 s2 s3 s4)
qed

lemma decode_code_point:
  assumes "c < 0x110000" "c < 0xD800 \<or> 0xDFFF < c"
  shows "utf16_of_utf8_from 0 0 0x80 0xBF (utf8_of_code_point c @ bs) =
         utf16_of_code_point c @ utf16_of_utf8_from 0 0 0x80 0xBF bs"
proof -
  consider "c < 0x80" | "0x80 \<le> c" "c < 0x800" | "0x800 \<le> c" "c < 0x10000" | "0x10000 \<le> c"
    by linarith
  then show ?thesis
  proof cases
    case 1 then show ?thesis by (rule decode_1)
  next
    case 2 then show ?thesis by (rule decode_2)
  next
    case 3 then show ?thesis using assms(2) by (rule decode_3)
  next
    case 4 then show ?thesis using assms(1) by (rule decode_4)
  qed
qed

lemma utf16_of_code_unit:
  assumes "\<not> is_high_surrogate u" "\<not> is_low_surrogate u"
  shows "utf16_of_code_point (unat u) = [u]"
proof -
  have "unat u < 2 ^ 16" using unsigned_less [of u, where ?'a = nat] by simp
  then have "unat u < 0x10000" by simp
  then show ?thesis by (simp add: utf16_of_code_point_def)
qed

lemma code_unit_scalar:
  assumes "\<not> is_high_surrogate u" "\<not> is_low_surrogate u"
  shows "unat u < 0x110000" "unat u < 0xD800 \<or> 0xDFFF < unat u"
proof -
  have "unat u < 2 ^ 16" using unsigned_less [of u, where ?'a = nat] by simp
  then show "unat u < 0x110000" by simp
  show "unat u < 0xD800 \<or> 0xDFFF < unat u"
    using assms unfolding is_high_surrogate_def is_low_surrogate_def by linarith
qed

lemma code_point_of_pair_range:
  assumes "is_high_surrogate h" "is_low_surrogate l"
  shows "0x10000 \<le> code_point_of_pair h l" "code_point_of_pair h l < 0x110000"
    "code_point_of_pair h l < 0xD800 \<or> 0xDFFF < code_point_of_pair h l"
  using assms unfolding is_high_surrogate_def is_low_surrogate_def code_point_of_pair_def
  by linarith+

lemma utf16_of_pair:
  assumes "is_high_surrogate h" "is_low_surrogate l"
  shows "utf16_of_code_point (code_point_of_pair h l) = [h, l]"
proof -
  define a where "a = unat h - 0xD800"
  define b where "b = unat l - 0xDC00"
  have uh: "unat h = 0xD800 + a" and a: "a < 1024"
    using assms(1) unfolding is_high_surrogate_def a_def by linarith+
  have ul: "unat l = 0xDC00 + b" and b: "b < 1024"
    using assms(2) unfolding is_low_surrogate_def b_def by linarith+
  have c: "code_point_of_pair h l = 0x10000 + (a * 1024 + b)"
    unfolding code_point_of_pair_def a_def b_def by simp
  have d: "(a * 1024 + b) div 1024 = a" using b by simp
  have m: "(a * 1024 + b) mod 1024 = b" using b by simp
  have h: "(of_nat (0xD800 + a) :: code_unit) = h" using uh [symmetric] by (simp only: of_nat_unat) simp
  have l: "(of_nat (0xDC00 + b) :: code_unit) = l" using ul [symmetric] by (simp only: of_nat_unat) simp
  have "utf16_of_code_point (0x10000 + (a * 1024 + b)) =
      [of_nat (0xD800 + (a * 1024 + b) div 1024), of_nat (0xDC00 + (a * 1024 + b) mod 1024)]"
    unfolding utf16_of_code_point_def by simp
  then show ?thesis by (simp only: c d m h l)
qed

lemma utf16_of_utf8_from_utf8_of_utf16:
  "well_formed s \<Longrightarrow> utf16_of_utf8_from 0 0 0x80 0xBF (utf8_of_utf16 s) = s"
proof (induction s rule: utf8_of_utf16.induct)
  case 1
  show ?case by simp
next
  case (2 u)
  then have n: "\<not> is_high_surrogate u" "\<not> is_low_surrogate u" by simp_all
  have "utf16_of_utf8_from 0 0 0x80 0xBF (utf8_of_code_point (unat u) @ []) =
      utf16_of_code_point (unat u) @ utf16_of_utf8_from 0 0 0x80 0xBF []"
    using code_unit_scalar [OF n] by (rule decode_code_point)
  then show ?case using n by (simp add: utf16_of_code_unit)
next
  case (3 u l rest)
  show ?case
  proof (cases "is_high_surrogate u")
    case True
    with "3.prems" have low: "is_low_surrogate l" and wf: "well_formed rest" by simp_all
    have "utf16_of_utf8_from 0 0 0x80 0xBF (utf8_of_code_point (code_point_of_pair u l) @ utf8_of_utf16 rest) =
        utf16_of_code_point (code_point_of_pair u l) @ utf16_of_utf8_from 0 0 0x80 0xBF (utf8_of_utf16 rest)"
      using code_point_of_pair_range(2,3) [OF True low] by (rule decode_code_point)
    then show ?thesis
      using True low "3.IH"(1) wf by (simp add: utf16_of_pair)
  next
    case False
    with "3.prems" have n: "\<not> is_high_surrogate u" "\<not> is_low_surrogate u"
      and wf: "well_formed (l # rest)" by simp_all
    have "utf16_of_utf8_from 0 0 0x80 0xBF (utf8_of_code_point (unat u) @ utf8_of_utf16 (l # rest)) =
        utf16_of_code_point (unat u) @ utf16_of_utf8_from 0 0 0x80 0xBF (utf8_of_utf16 (l # rest))"
      using code_unit_scalar [OF n] by (rule decode_code_point)
    then show ?thesis
      using n "3.IH"(3) wf by (simp add: utf16_of_code_unit del: utf8_of_utf16.simps(3)) (simp add: n)
  qed
qed

lemma utf16_of_utf8_utf8_of_utf16:
  "well_formed s \<Longrightarrow> utf16_of_utf8 (utf8_of_utf16 s) = s"
  by (simp add: utf16_of_utf8_def utf16_of_utf8_from_utf8_of_utf16)

section \<open>The sample run, evaluated\<close>

lemma sample_salt:
  "fst (randomBytes 16 sample_source) =
     [5, 18, 31, 44, 57, 70, 83, 96, 109, 122, 135, 148, 161, 174, 187, 200]"
  by (simp add: randomBytes_def sample_source_def upt_conv_Cons)

lemma sample_password_bytes:
  "utf8_encode sample_lib ''userPassword123!'' =
     [117, 115, 101, 114, 80, 97, 115, 115, 119, 111, 114, 100, 49, 50, 51, 33]"
  by (simp add: sample_lib_def)

lemma sample_user_key:
  "pbkdf2Sync sample_lib ''userPassword123!'' (fst (randomBytes 16 sample_source)) 100000 32 =
     [161, 168, 175, 182, 189, 196, 203, 210, 217, 224, 231, 238, 245, 252, 3, 10, 17, 24, 31,
      38, 45, 52, 59, 66, 73, 80, 87, 94, 101, 108, 115, 122]"
  by (simp add: pbkdf2Sync_def pbkdf2_def sample_password_bytes sample_salt upt_conv_Cons)
     (simp add: sample_lib_def)

lemma sample_user_key_hex:
  "toString_hex
     [161, 168, 175, 182, 189, 196, 203, 210, 217, 224, 231, 238, 245, 252, 3, 10, 17, 24, 31,
      38, 45, 52, 59, 66, 73, 80, 87, 94, 101, 108, 115, 122] =
   ''a1a8afb6bdc4cbd2d9e0e7eef5fc030a11181f262d343b424950575e656c737a''"
  by (simp add: toString_hex_def hex_char_def char_of_def bit_Suc_0_iff)

lemma sample_short_salt_key:
  "pbkdf2Sync sample_lib ''userPassword123!'' [1, 2, 3] 100000 32 =
     [123, 130, 137, 144, 151, 158, 165, 172, 179, 186, 193, 200, 207, 214, 221, 228, 235, 242,
      249, 0, 7, 14, 21, 28, 35, 42, 49, 56, 63, 70, 77, 84]"
  by (simp add: pbkdf2Sync_def pbkdf2_def sample_password_bytes upt_conv_Cons)
     (simp add: sample_lib_def)

section \<open>The properties\<close>

text \<open>
  C1, as the code has it. In the envelope demonstration the server stores three
  sealed objects and nothing else: the deed sealed under the DEK, and the DEK sealed
  under the key derived from the owner's password and under the key derived from the
  friend's. In \<open>js/a.js\<close> no DEK exists; the one record stored holds the ciphertext,
  the IV, the tag and the salt as hexadecimal text and, as \<open>shared_key\<close>, the
  hexadecimal text of the user's derived key itself.
\<close>

theorem what_the_stores_hold:
  "(\<exists>it g1 sh g2 r ko kf ga ga' gb gb' gc gc'.
      create_item L ownerPassword deed g = Inr (it, g1) \<and>
      share_item L friendPassword it g1 = Inr (sh, g2) \<and>
      kitab_flow L ownerPassword friendPassword deed g = Inr r \<and>
      db_stored r =
        \<lparr>ciphertext = encryptedDeed it, owner_key = encDEKOwner it, friend_key = encDEKFriend sh\<rparr> \<and>
      encryptAES L (DEK it) (utf8_encode L deed) gc = Inr (encryptedDeed it, gc') \<and>
      passwordToKey L ownerPassword (ownerSalt it) = Inr ko \<and>
      encryptAES L ko (rawDEK it) ga = Inr (encDEKOwner it, ga') \<and>
      passwordToKey L friendPassword (friendSalt sh) = Inr kf \<and>
      encryptAES L kf (rawDEK it) gb = Inr (encDEKFriend sh, gb')) \<and>
   (\<exists>r w s0 g1 obj g2.
      script L privateDeed userPassword friendPassword' g = (Inr r, w) \<and>
      deriveKey L userPassword None g = ((userKey r, s0), g1) \<and>
      encrypt L privateDeed (userKey r) g1 = Inr (obj, g2) \<and>
      deeds w =
        [\<lparr>deed_id = ''deed001'', owner_id = userId,
          encrypted_data = toString_hex (encryptedData obj),
          deed_iv = toString_hex (iv obj),
          auth_tag = toString_hex (tag obj),
          salt = toString_hex s0,
          shared_with = [\<lparr>friend_id = friendId, shared_key = toString_hex (userKey r)\<rparr>]\<rparr>])"
  using stored_kitab [of L ownerPassword deed g friendPassword]
    stored_a_js [of L privateDeed userPassword friendPassword' g]
  by simp

text \<open>
  C1 as stated fails on \<open>js/a.js\<close>: after the run with the script's own constants the
  derived key of the user is among the texts at rest, as the value of \<open>shared_key\<close>.
\<close>

theorem derived_key_at_rest_counterexample:
  "\<not> isl (fst sample_run) \<and>
   userKey (projr (fst sample_run)) =
     [161, 168, 175, 182, 189, 196, 203, 210, 217, 224, 231, 238, 245, 252, 3, 10, 17, 24, 31,
      38, 45, 52, 59, 66, 73, 80, 87, 94, 101, 108, 115, 122] \<and>
   map shared_key (concat (map shared_with (deeds (snd sample_run)))) =
     [''a1a8afb6bdc4cbd2d9e0e7eef5fc030a11181f262d343b424950575e656c737a''] \<and>
   toString_hex (userKey (projr (fst sample_run))) \<in>
     set (concat (map persisted (deeds (snd sample_run))))"
  by (simp add: sample_run_def script_eq cycle3_deeds cycle2_deeds cycle1_deeds persisted_def
      Let_def sample_user_key sample_user_key_hex)

text \<open>
  C2. Opening what was sealed. For \<open>encryptAES\<close> and \<open>decryptAES\<close> the payload is any
  byte sequence, the empty one included, and the key any AES-GCM key that may encrypt
  and decrypt: opening returns the payload. For \<open>encrypt\<close> and \<open>decrypt\<close> of \<open>js/a.js\<close>
  the payload is a text, sealed as its UTF-8 bytes and returned decoded, and the key has
  the 32 bytes \<open>'aes-256-gcm'\<close> asks for: opening always succeeds and returns the decoding
  of the text's encoding, on any library; on JavaScript strings that is the text itself
  whenever it is well formed.
\<close>

theorem seal_open_round_trip:
  "(algorithm key = AES_GCM \<and> Use_encrypt \<in> set (usages key) \<and> Use_decrypt \<in> set (usages key) \<longrightarrow>
      (\<exists>enc g'. encryptAES L key p g = Inr (enc, g') \<and> decryptAES L key enc = Inr p)) \<and>
   (length k = 32 \<longrightarrow>
      (\<exists>obj g'. encrypt M s k g = Inr (obj, g') \<and>
                 decrypt M obj k = Inr (utf8_decode M (utf8_encode M s)))) \<and>
   (length k = 32 \<and> well_formed t \<longrightarrow>
      (\<exists>obj g'. encrypt (with_js_codec L) t k g = Inr (obj, g') \<and>
                 decrypt (with_js_codec L) obj k = Inr t))"
proof (intro conjI impI)
  assume "algorithm key = AES_GCM \<and> Use_encrypt \<in> set (usages key) \<and> Use_decrypt \<in> set (usages key)"
  then show "\<exists>enc g'. encryptAES L key p g = Inr (enc, g') \<and> decryptAES L key enc = Inr p"
    by (simp add: encryptAES_eq decryptAES_sealed)
next
  assume "length k = 32"
  then show "\<exists>obj g'. encrypt M s k g = Inr (obj, g') \<and>
      decrypt M obj k = Inr (utf8_decode M (utf8_encode M s))"
    by (rule decrypt_encrypt)
next
  assume a: "length k = 32 \<and> well_formed t"
  then have "length k = 32" by simp
  from decrypt_encrypt [OF this, of "with_js_codec L" t g] a
  show "\<exists>obj g'. encrypt (with_js_codec L) t k g = Inr (obj, g') \<and>
      decrypt (with_js_codec L) obj k = Inr t"
    by (simp add: with_js_codec_def utf16_of_utf8_utf8_of_utf16)
qed

theorem seal_open_round_trip_witness:
  "algorithm (fst (generateKey True [Use_encrypt, Use_decrypt] sample_source)) = AES_GCM \<and>
   Use_encrypt \<in> set (usages (fst (generateKey True [Use_encrypt, Use_decrypt] sample_source))) \<and>
   Use_decrypt \<in> set (usages (fst (generateKey True [Use_encrypt, Use_decrypt] sample_source))) \<and>
   (\<exists>enc g'. encryptAES sample_lib (fst (generateKey True [Use_encrypt, Use_decrypt] sample_source)) []
                sample_source = Inr (enc, g') \<and>
              decryptAES sample_lib (fst (generateKey True [Use_encrypt, Use_decrypt] sample_source)) enc
                = Inr []) \<and>
   length (replicate 32 (0 :: byte)) = 32 \<and>
   (\<exists>obj g'. encrypt sample_lib ''My secret good deed entry'' (replicate 32 0) sample_source = Inr (obj, g') \<and>
              decrypt sample_lib obj (replicate 32 0) = Inr ''My secret good deed entry'') \<and>
   well_formed [0x48, 0xE9, 0x20AC, 0xD83D, 0xDE00] \<and>
   (\<exists>obj g'. encrypt (with_js_codec sample_lib) [0x48, 0xE9, 0x20AC, 0xD83D, 0xDE00] (replicate 32 0)
                sample_source = Inr (obj, g') \<and>
              decrypt (with_js_codec sample_lib) obj (replicate 32 0) =
                Inr [0x48, 0xE9, 0x20AC, 0xD83D, 0xDE00])"
proof -
  have h1: "algorithm (fst (generateKey True [Use_encrypt, Use_decrypt] sample_source)) = AES_GCM \<and>
      Use_encrypt \<in> set (usages (fst (generateKey True [Use_encrypt, Use_decrypt] sample_source))) \<and>
      Use_decrypt \<in> set (usages (fst (generateKey True [Use_encrypt, Use_decrypt] sample_source)))"
    by (simp add: generateKey_def split_beta)
  have h2: "length (replicate 32 (0 :: byte)) = 32" by simp
  have h3: "well_formed [0x48, 0xE9, 0x20AC, 0xD83D, 0xDE00]"
    by (simp add: is_high_surrogate_def is_low_surrogate_def)
  have h4: "utf8_decode sample_lib (utf8_encode sample_lib ''My secret good deed entry'') =
      ''My secret good deed entry''"
    by (rule sample_lib_codec)
  from seal_open_round_trip
    [of "fst (generateKey True [Use_encrypt, Use_decrypt] sample_source)" sample_lib "[]" sample_source
        "replicate 32 0" sample_lib "''My secret good deed entry''"
        "[0x48, 0xE9, 0x20AC, 0xD83D, 0xDE00]"]
  show ?thesis using h1 h2 h3 unfolding h4 by blast
qed

text \<open>
  C2, as stated for every payload, fails for \<open>encrypt\<close> and \<open>decrypt\<close> of \<open>js/a.js\<close>: the
  string of the one code unit D800, a lone surrogate, is sealed as the bytes EF BF BD of
  U+FFFD, and opening returns the string of the one code unit FFFD.
\<close>

theorem lone_surrogate_round_trip_counterexample:
  "utf8_of_utf16 [0xD800] = [0xEF, 0xBF, 0xBD] \<and>
   \<not> isl (encrypt (with_js_codec sample_lib) [0xD800] (replicate 32 0) sample_source) \<and>
   decrypt (with_js_codec sample_lib)
     (fst (projr (encrypt (with_js_codec sample_lib) [0xD800] (replicate 32 0) sample_source)))
     (replicate 32 0) = Inr [0xFFFD] \<and>
   decrypt (with_js_codec sample_lib)
     (fst (projr (encrypt (with_js_codec sample_lib) [0xD800] (replicate 32 0) sample_source)))
     (replicate 32 0) \<noteq> Inr [0xD800]"
proof -
  have k: "length (replicate 32 (0 :: byte)) = 32" by simp
  have e: "utf8_of_utf16 [0xD800] = [0xEF, 0xBF, 0xBD]"
    by (simp add: is_high_surrogate_def)
  have c: "utf8_decode (with_js_codec sample_lib) (utf8_encode (with_js_codec sample_lib) [0xD800]) =
      [0xFFFD]"
    by (simp add: with_js_codec_def is_high_surrogate_def utf16_of_utf8_def utf16_of_code_point_def)
  from decrypt_encrypt [OF k, of "with_js_codec sample_lib" "[0xD800]" sample_source]
  obtain obj g' where
    o: "encrypt (with_js_codec sample_lib) [0xD800] (replicate 32 0) sample_source = Inr (obj, g')"
    and d: "decrypt (with_js_codec sample_lib) obj (replicate 32 0) = Inr [0xFFFD]"
    unfolding c by blast
  show ?thesis using e d by (simp add: o)
qed

text \<open>
  C3. In the envelope flow the item is shared with the owner and the friend.
  Unwrapping the owner's wrapped DEK with the owner's derived key and the friend's
  wrapped DEK with the friend's derived key both give the raw DEK of the item, the flow
  runs to its end, the two raw DEKs it recovers are that same DEK, and both readers
  read the same text from the one ciphertext.
\<close>

theorem shared_item_same_dek:
  "\<exists>it g1 sh g2 ko kf r.
     create_item L ownerPassword deed g = Inr (it, g1) \<and>
     share_item L friendPassword it g1 = Inr (sh, g2) \<and>
     passwordToKey L ownerPassword (ownerSalt it) = Inr ko \<and>
     passwordToKey L friendPassword (friendSalt sh) = Inr kf \<and>
     decryptAES L ko (encDEKOwner it) = Inr (rawDEK it) \<and>
     decryptAES L kf (encDEKFriend sh) = Inr (rawDEK it) \<and>
     kitab_flow L ownerPassword friendPassword deed g = Inr r \<and>
     ownerDEKRaw r = rawDEK it \<and> friendDEKRaw r = rawDEK it \<and>
     ownerDEKRaw r = friendDEKRaw r \<and>
     ownerReads r = utf8_decode L (utf8_encode L deed) \<and>
     friendReads r = utf8_decode L (utf8_encode L deed) \<and>
     ownerReads r = friendReads r"
proof -
  obtain it g1 sh g2 where c: "create_item L ownerPassword deed g = Inr (it, g1)"
    and s: "share_item L friendPassword it g1 = Inr (sh, g2)"
    and f: "kitab_flow L ownerPassword friendPassword deed g =
       Inr \<lparr>ownerDEKRaw = rawDEK it, ownerReads = utf8_decode L (utf8_encode L deed),
            friendDEKRaw = rawDEK it, friendReads = utf8_decode L (utf8_encode L deed),
            db_stored = stores it sh\<rparr>"
    using kitab_flow_eq [of L ownerPassword deed g friendPassword] by blast
  from c have o: "decryptAES L
      \<lparr>algorithm = AES_GCM, raw = pbkdf2 L (utf8_encode L ownerPassword) (ownerSalt it) 100000 32,
       extractable = False, usages = [Use_encrypt, Use_decrypt]\<rparr> (encDEKOwner it) = Inr (rawDEK it)"
    by (auto simp: create_item_eq Let_def decryptAES_sealed)
  from s have fr: "decryptAES L
      \<lparr>algorithm = AES_GCM, raw = pbkdf2 L (utf8_encode L friendPassword) (friendSalt sh) 100000 32,
       extractable = False, usages = [Use_encrypt, Use_decrypt]\<rparr> (encDEKFriend sh) = Inr (rawDEK it)"
    by (auto simp: share_item_eq Let_def decryptAES_sealed)
  show ?thesis
    using c s f o fr by (simp add: passwordToKey_eq)
qed

text \<open>
  C5, as the code has it. The script has no access-control gate. In every run its
  calls are, in this order: derive the key, encrypt, push the record, read the
  database, decrypt (the friend), read the database, derive the key, decrypt (the
  user). No consultation of a gate is among them, and the friend's cycle, started in
  any state, reads the database and decrypts at once.
\<close>

theorem script_consults_no_gate:
  "calls (snd (script L privateDeed userPassword friendPassword g)) =
     [Call_deriveKey, Call_encrypt, Db_push, Db_read, Call_decrypt, Db_read, Call_deriveKey,
      Call_decrypt] \<and>
   Authorize a \<notin> set (calls (snd (script L privateDeed userPassword friendPassword g))) \<and>
   calls (snd (cycle2 L friendPassword w)) =
     calls w @ Db_read #
       (case deeds w of [] \<Rightarrow> []
        | d # _ \<Rightarrow> (case shared_with d of [] \<Rightarrow> [] | s # _ \<Rightarrow> [Call_decrypt]))"
  by (simp add: script_calls cycle2_calls)

text \<open>
  C5 as stated fails: in the run with the script's own constants a decryption is
  called with no Allow before it.
\<close>

theorem ungated_decrypt_counterexample:
  "\<not> gated False (calls (snd sample_run))"
  by (simp add: sample_run_def script_calls)


text \<open>
  C7. Both sealing functions draw their nonce themselves from the random source,
  the next bytes of it at every call, and take no nonce from the caller. \<open>encryptAES\<close>
  draws 12 bytes. \<open>encrypt\<close> of \<open>js/a.js\<close> draws 16 bytes, not 12.
\<close>

theorem encrypt_draws_16_byte_iv:
  "(case encrypt L data k g of
      Inr (obj, g') \<Rightarrow>
        iv obj = map (tape g) [pos g ..< pos g + 16] \<and> length (iv obj) = 16 \<and>
        pos g' = pos g + 16 \<and> tape g' = tape g
    | Inl e \<Rightarrow> e = InvalidKeyLength \<and> length k \<noteq> 32) \<and>
   (case encryptAES L key p g of
      Inr (enc, g') \<Rightarrow>
        aes_iv enc = map (tape g) [pos g ..< pos g + 12] \<and> length (aes_iv enc) = 12 \<and>
        pos g' = pos g + 12 \<and> tape g' = tape g
    | Inl e \<Rightarrow> e = InvalidAccessError)"
proof -
  have a: "case encrypt L data k g of
      Inr (obj, g') \<Rightarrow>
        iv obj = map (tape g) [pos g ..< pos g + 16] \<and> length (iv obj) = 16 \<and>
        pos g' = pos g + 16 \<and> tape g' = tape g
    | Inl e \<Rightarrow> e = InvalidKeyLength \<and> length k \<noteq> 32"
  proof (cases "length k = 32")
    case True
    then show ?thesis by (simp add: encrypt_eq randomBytes_eq)
  next
    case False
    then show ?thesis
      by (simp add: encrypt_def createCipheriv_def split_beta randomBytes_nonempty
          randomBytes_length)
  qed
  have b: "case encryptAES L key p g of
      Inr (enc, g') \<Rightarrow>
        aes_iv enc = map (tape g) [pos g ..< pos g + 12] \<and> length (aes_iv enc) = 12 \<and>
        pos g' = pos g + 12 \<and> tape g' = tape g
    | Inl e \<Rightarrow> e = InvalidAccessError"
    by (simp add: encryptAES_def subtle_encrypt_def split_beta randomBytes_eq Let_def)
  from a b show ?thesis by simp
qed

text \<open>
  C8. Key derivation is deterministic. \<open>deriveKey\<close> with a given salt returns the same
  32-byte key whatever the state of the random source, which it does not touch;
  \<open>passwordToKey\<close> returns one 32-byte key for a password and a salt; the iteration
  count is the constant 100000 in both, and \<open>pbkdf2Sync\<close> gives 32 bytes for any count. In the script, the key the user derives again
  in cycle 3, from the salt read back from the database, is the key of cycle 1.
\<close>

theorem deriveKey_deterministic:
  "fst (deriveKey L password (Some s) g1) = fst (deriveKey L password (Some s) g2) \<and>
   length (fst (fst (deriveKey L password (Some s) g1))) = 32 \<and>
   length (pbkdf2Sync L password s iterations 32) = 32 \<and>
   (\<exists>k. passwordToKey L password s = Inr k \<and> length (raw k) = 32) \<and>
   (\<exists>r w. script L privateDeed password friendPassword g = (Inr r, w) \<and> userKeyAgain r = userKey r)"
  by (simp add: deriveKey_Some pbkdf2Sync_length passwordToKey_eq pbkdf2_def script_eq)

theorem deriveKey_deterministic_witness:
  "fst (deriveKey sample_lib ''userPassword123!'' (Some [0, 1, 2, 3, 4, 5, 6, 7, 8, 9, 10, 11, 12, 13, 14, 15])
         sample_source) =
   fst (deriveKey sample_lib ''userPassword123!'' (Some [0, 1, 2, 3, 4, 5, 6, 7, 8, 9, 10, 11, 12, 13, 14, 15])
         (sample_source\<lparr>pos := 16\<rparr>)) \<and>
   length (fst (fst (deriveKey sample_lib ''userPassword123!''
                       (Some [0, 1, 2, 3, 4, 5, 6, 7, 8, 9, 10, 11, 12, 13, 14, 15]) sample_source))) = 32"
  using deriveKey_deterministic
    [of sample_lib "''userPassword123!''" "[0, 1, 2, 3, 4, 5, 6, 7, 8, 9, 10, 11, 12, 13, 14, 15]"
        sample_source "sample_source\<lparr>pos := 16\<rparr>"]
  by blast

text \<open>
  C9, as the code has it. \<open>deriveKey\<close> validates nothing and never fails. Given a
  salt of any length it returns the 32-byte key derived from it with 100000
  iterations, together with that salt, and leaves the random source alone; given no
  salt it draws 16 random bytes for one. It takes no iteration count.
\<close>

theorem deriveKey_validates_nothing:
  "deriveKey L password (Some s) g = ((pbkdf2Sync L password s 100000 32, s), g) \<and>
   deriveKey L password None g =
     ((pbkdf2Sync L password (fst (randomBytes 16 g)) 100000 32, fst (randomBytes 16 g)),
      snd (randomBytes 16 g)) \<and>
   length (fst (randomBytes 16 g)) = 16 \<and>
   length (pbkdf2Sync L password s 100000 32) = 32"
  by (simp add: deriveKey_Some deriveKey_None pbkdf2Sync_length randomBytes_length)

text \<open>
  C9 as stated fails: with a salt of 3 bytes \<open>deriveKey\<close> returns a key of 32 bytes
  and the salt it was given.
\<close>

theorem deriveKey_short_salt_counterexample:
  "length [1, 2, 3 :: byte] \<noteq> 16 \<and>
   deriveKey sample_lib ''userPassword123!'' (Some [1, 2, 3]) sample_source =
     (([123, 130, 137, 144, 151, 158, 165, 172, 179, 186, 193, 200, 207, 214, 221, 228, 235,
        242, 249, 0, 7, 14, 21, 28, 35, 42, 49, 56, 63, 70, 77, 84],
       [1, 2, 3]),
      sample_source)"
  by (simp add: deriveKey_Some sample_short_salt_key)

text \<open>
  C10. What the friend reads does not depend on the friend's password. The outcome
  of the friend's cycle is the same for any two passwords, in the same state and in any
  two states that store the same records; so is the outcome of the whole script.
\<close>

theorem friend_password_unused:
  "fst (cycle2 L friendPassword1 w) = fst (cycle2 L friendPassword2 w) \<and>
   (deeds w = deeds w' \<longrightarrow> fst (cycle2 L friendPassword1 w) = fst (cycle2 L friendPassword2 w')) \<and>
   fst (script L privateDeed userPassword friendPassword1 g) =
     fst (script L privateDeed userPassword friendPassword2 g)"
  by (simp add: cycle2_fst script_eq)

theorem friend_password_unused_witness:
  "deeds (snd (cycle1 sample_lib ''My secret good deed entry'' ''userPassword123!''
          \<lparr>rng = sample_source, deeds = [], console = [], calls = []\<rparr>)) =
   deeds (console_log [Str ''another run'']
          (snd (cycle1 sample_lib ''My secret good deed entry'' ''userPassword123!''
             \<lparr>rng = sample_source, deeds = [], console = [], calls = []\<rparr>))) \<and>
   fst (cycle2 sample_lib ''friendPassword456!''
          (snd (cycle1 sample_lib ''My secret good deed entry'' ''userPassword123!''
             \<lparr>rng = sample_source, deeds = [], console = [], calls = []\<rparr>))) =
   fst (cycle2 sample_lib ''some other password''
          (console_log [Str ''another run'']
            (snd (cycle1 sample_lib ''My secret good deed entry'' ''userPassword123!''
               \<lparr>rng = sample_source, deeds = [], console = [], calls = []\<rparr>))))"
proof -
  have h: "deeds (snd (cycle1 sample_lib ''My secret good deed entry'' ''userPassword123!''
          \<lparr>rng = sample_source, deeds = [], console = [], calls = []\<rparr>)) =
   deeds (console_log [Str ''another run'']
          (snd (cycle1 sample_lib ''My secret good deed entry'' ''userPassword123!''
             \<lparr>rng = sample_source, deeds = [], console = [], calls = []\<rparr>)))"
    by (simp add: console_log_simps)
  from friend_password_unused
    [of sample_lib "''friendPassword456!''"
        "snd (cycle1 sample_lib ''My secret good deed entry'' ''userPassword123!''
             \<lparr>rng = sample_source, deeds = [], console = [], calls = []\<rparr>)"
        "''some other password''"
        "console_log [Str ''another run'']
          (snd (cycle1 sample_lib ''My secret good deed entry'' ''userPassword123!''
             \<lparr>rng = sample_source, deeds = [], console = [], calls = []\<rparr>))"]
  show ?thesis using h by blast
qed

end
